theory Spec2Isabelle
  imports Complex_Main
begin

text \<open>
  A model of \<open>build_main.py\<close>, the build, install and test script of the Qt Creator MCP
  plugin: \<open>run_command\<close>, the RPC client (\<open>get_mcp_timeout_for_function\<close>,
  \<open>send_mcp_command_socket\<close>, \<open>poll_build_status\<close>, \<open>test_mcp_version\<close>), the process
  control (\<open>quit_qt_creator_gracefully\<close>, \<open>kill_qt_creator\<close>),
  \<open>verify_plugin_installation\<close>, the version step and \<open>main\<close>. Time is a clock in
  milliseconds; what the script finds outside (processes, endpoint, files) is a parameter.
\<close>

section \<open>Python strings\<close>

text \<open>
  Strings are \<open>char list\<close>. The helpers below follow Python's \<open>str\<close> methods on the
  ASCII range, which is the range of every literal the build script compares against.
\<close>

fun startswith :: "string \<Rightarrow> string \<Rightarrow> bool" where
  "startswith s [] = True"
| "startswith [] (p # ps) = False"
| "startswith (c # cs) (p # ps) = (c = p \<and> startswith cs ps)"

text \<open>\<open>contains needle s\<close> is Python's \<open>needle in s\<close> on two strings.\<close>

fun contains :: "string \<Rightarrow> string \<Rightarrow> bool" where
  "contains needle [] = (needle = [])"
| "contains needle (c # cs) = (startswith (c # cs) needle \<or> contains needle cs)"

definition is_space :: "char \<Rightarrow> bool" where
  "is_space c = (c \<in> set [CHR '' '', CHR 0x09, CHR 0x0A, CHR 0x0B, CHR 0x0C, CHR 0x0D,
                            CHR 0x1C, CHR 0x1D, CHR 0x1E, CHR 0x1F])"

definition lstrip :: "string \<Rightarrow> string" where
  "lstrip s = dropWhile is_space s"

definition rstrip :: "string \<Rightarrow> string" where
  "rstrip s = rev (dropWhile is_space (rev s))"

definition strip :: "string \<Rightarrow> string" where
  "strip s = lstrip (rstrip s)"

definition lower_char :: "char \<Rightarrow> char" where
  "lower_char c =
     (case map_of (zip ''ABCDEFGHIJKLMNOPQRSTUVWXYZ'' ''abcdefghijklmnopqrstuvwxyz'') c of
        Some d \<Rightarrow> d
      | None \<Rightarrow> c)"

definition lower :: "string \<Rightarrow> string" where
  "lower s = map lower_char s"

definition is_digit :: "char \<Rightarrow> bool" where
  "is_digit c = (c \<in> set ''0123456789'')"

definition digit_val :: "char \<Rightarrow> nat" where
  "digit_val c = of_char c - 48"

text \<open>The value of a run of decimal digits, most significant first.\<close>

definition digits_val :: "string \<Rightarrow> nat" where
  "digits_val ds = foldl (\<lambda>acc c. 10 * acc + digit_val c) 0 ds"

text \<open>\<open>str(True)\<close> and \<open>str(False)\<close>.\<close>

definition str_bool :: "bool \<Rightarrow> string" where
  "str_bool b = (if b then ''True'' else ''False'')"

subsection \<open>\<open>str(cmd)\<close> for a command given as a string or as an argument list\<close>

datatype cmd = CmdStr string | CmdList "string list"

definition hex_digit :: "nat \<Rightarrow> char" where
  "hex_digit n = ''0123456789abcdef'' ! (n mod 16)"

text \<open>
  \<open>repr\<close> of a string: double quotes when the text has a single quote and no double quote,
  single quotes otherwise; the quote in use, the backslash and the control characters are
  escaped.
\<close>

definition repr_char :: "char \<Rightarrow> char \<Rightarrow> string" where
  "repr_char q c =
     (let n = of_char c :: nat in
      if c = CHR 0x5C then [CHR 0x5C, CHR 0x5C]
      else if c = q then [CHR 0x5C, q]
      else if c = CHR 0x0A then [CHR 0x5C, CHR ''n'']
      else if c = CHR 0x0D then [CHR 0x5C, CHR ''r'']
      else if c = CHR 0x09 then [CHR 0x5C, CHR ''t'']
      else if n < 32 \<or> n = 127 then [CHR 0x5C, CHR ''x'', hex_digit (n div 16), hex_digit (n mod 16)]
      else [c])"

definition repr_str :: "string \<Rightarrow> string" where
  "repr_str s =
     (let q = (if CHR 0x27 \<in> set s \<and> CHR 0x22 \<notin> set s then CHR 0x22 else CHR 0x27)
      in [q] @ concat (map (repr_char q) s) @ [q])"

fun join :: "string \<Rightarrow> string list \<Rightarrow> string" where
  "join sep [] = []"
| "join sep [x] = x"
| "join sep (x # y # ys) = x @ sep @ join sep (y # ys)"

definition str_cmd :: "cmd \<Rightarrow> string" where
  "str_cmd c = (case c of CmdStr s \<Rightarrow> s
                | CmdList xs \<Rightarrow> ''['' @ join '', '' (map repr_str xs) @ '']'')"

text \<open>Truth value of \<open>cmd\<close> in \<open>if cmd and ...\<close>: an empty string or list is false.\<close>

definition cmd_truthy :: "cmd \<Rightarrow> bool" where
  "cmd_truthy c = (case c of CmdStr s \<Rightarrow> s \<noteq> [] | CmdList xs \<Rightarrow> xs \<noteq> [])"

section \<open>\<open>run_command\<close>\<close>

text \<open>
  The child process is described by what it does over time, in milliseconds since
  \<open>start_time\<close>: the lines it writes to the merged stdout/stderr pipe, each with the time at
  which the complete line can be read, and the time and return code of its exit (\<open>None\<close>
  for a child that never exits on its own). The pipe reaches end of file when the child
  exits. \<open>reaped_after\<close> says how long after \<open>process.terminate()\<close> the child is gone
  (\<open>None\<close>: the signal is ignored).
\<close>

record child =
  child_outputs :: "(nat \<times> string) list"
  child_exit :: "(nat \<times> int) option"
  reaped_after :: "nat option"

definition has_exited :: "child \<Rightarrow> nat \<Rightarrow> bool" where
  "has_exited ch now = (case child_exit ch of None \<Rightarrow> False | Some (te, rc) \<Rightarrow> te \<le> now)"

text \<open>
  How the \<open>while process.poll() is None\<close> loop ends: the child has exited (with the lines
  not yet read and the lines captured so far), the timeout branch was taken, or
  \<open>process.stdout.readline()\<close> never returns.
\<close>

datatype loop_end =
    Exited nat "(nat \<times> string) list" "string list"
  | TimedOut nat "string list"
  | Stuck

text \<open>
  One iteration: \<open>poll()\<close>; the timeout test \<open>time.time() - start_time > timeout\<close>; then
  \<open>readline()\<close>, a blocking read on the pipe, which returns the next line once it is there
  (the line with its newline is never empty, so it is stripped and appended), returns the
  empty string at end of file, and does not return while the child is alive and silent;
  then \<open>time.sleep(0.01)\<close>.
\<close>

function poll_loop :: "child \<Rightarrow> nat \<Rightarrow> nat \<Rightarrow> (nat \<times> string) list \<Rightarrow> string list \<Rightarrow> loop_end" where
  "poll_loop ch timeout now pending out =
     (if has_exited ch now then Exited now pending out
      else if now > timeout then TimedOut now out
      else (case pending of
              (t, l) # rest \<Rightarrow> poll_loop ch timeout (max now t + 10) rest (out @ [rstrip l])
            | [] \<Rightarrow> (case child_exit ch of
                       None \<Rightarrow> Stuck
                     | Some (te, rc) \<Rightarrow> poll_loop ch timeout (max now te + 10) [] out)))"
  by pat_completeness auto
termination
  by (relation "measure (\<lambda>(ch, timeout, now, pending, out).
        length pending + (if has_exited ch now then 0 else 1))")
     (auto simp: has_exited_def split: option.splits)

declare poll_loop.simps [simp del]

text \<open>\<open>process.terminate(); process.wait()\<close> at time \<open>now\<close>: when \<open>wait\<close> returns, if ever.\<close>

definition wait_after_terminate :: "child \<Rightarrow> nat \<Rightarrow> nat option" where
  "wait_after_terminate ch now =
     (case (reaped_after ch, child_exit ch) of
        (Some d, None) \<Rightarrow> Some (now + d)
      | (Some d, Some (te, rc)) \<Rightarrow> Some (min (now + d) (max now te))
      | (None, Some (te, rc)) \<Rightarrow> Some (max now te)
      | (None, None) \<Rightarrow> None)"

text \<open>
  The result of a call: the boolean returned, the time of the return and the captured
  \<open>output_lines\<close>; or \<open>Blocked\<close> when the call never returns.
\<close>

datatype run_result = Finished bool nat "string list" | Blocked

definition returncode :: "child \<Rightarrow> int" where
  "returncode ch = (case child_exit ch of None \<Rightarrow> 0 | Some (te, rc) \<Rightarrow> rc)"

text \<open>The part of \<open>run_command\<close> after the loop, from \<open>return_code = process.returncode\<close> on.\<close>

definition after_exit :: "cmd \<Rightarrow> int \<Rightarrow> string list \<Rightarrow> bool" where
  "after_exit c return_code output_lines =
     (if return_code \<noteq> 0 then False
      else if cmd_truthy c \<and> contains ''xcopy'' (lower (str_cmd c))
              \<and> list_ex (contains ''0 File(s) copied'') output_lines then False
      else True)"

text \<open>
  \<open>run_command(cmd, timeout=...)\<close>. \<open>spawned\<close> is \<open>None\<close> when \<open>subprocess.Popen\<close> raises,
  which the \<open>except Exception\<close> clause turns into \<open>False\<close>. \<open>shell\<close> and \<open>env\<close> only reach
  \<open>Popen\<close>, \<open>check\<close> is unused and \<open>show_errors\<close> only selects what is printed.
\<close>

definition run_command :: "cmd \<Rightarrow> child option \<Rightarrow> nat option \<Rightarrow> run_result" where
  "run_command c spawned timeout_opt =
     (let timeout = (case timeout_opt of None \<Rightarrow> 3600000 | Some t \<Rightarrow> t) in
      case spawned of
        None \<Rightarrow> Finished False 0 []
      | Some ch \<Rightarrow>
          (case poll_loop ch timeout 0 (child_outputs ch) [] of
             Stuck \<Rightarrow> Blocked
           | TimedOut now out \<Rightarrow>
               (case wait_after_terminate ch now of
                  None \<Rightarrow> Blocked
                | Some t \<Rightarrow> Finished False t out)
           | Exited now pending out \<Rightarrow>
               (let output_lines = out @ map (rstrip \<circ> snd) pending
                in Finished (after_exit c (returncode ch) output_lines) now output_lines)))"

section \<open>JSON values and the Python operations applied to them\<close>

text \<open>
  The value \<open>json.loads\<close> or \<open>json.load\<close> returns. An object keeps one value per key, as
  the Python dict does; of a number only whether it is zero is looked at.
\<close>

datatype json =
    JNull
  | JBool bool
  | JNum int
  | JStr string
  | JArr "json list"
  | JObj "(string \<times> json) list"

text \<open>Truth value of \<open>x\<close> in \<open>if x\<close> and \<open>a and x\<close>.\<close>

fun truthy :: "json \<Rightarrow> bool" where
  "truthy JNull = False"
| "truthy (JBool b) = b"
| "truthy (JNum n) = (n \<noteq> 0)"
| "truthy (JStr s) = (s \<noteq> [])"
| "truthy (JArr xs) = (xs \<noteq> [])"
| "truthy (JObj kvs) = (kvs \<noteq> [])"

text \<open>
  \<open>key in x\<close> for a string \<open>key\<close>: a key of a dict, an element of a list, a substring of
  a string; \<open>None\<close> stands for the \<open>TypeError\<close> raised on every other value.
\<close>

fun py_in :: "string \<Rightarrow> json \<Rightarrow> bool option" where
  "py_in k (JObj kvs) = Some (k \<in> set (map fst kvs))"
| "py_in k (JArr xs) = Some (JStr k \<in> set xs)"
| "py_in k (JStr s) = Some (contains k s)"
| "py_in k v = None"

text \<open>
  \<open>x[key]\<close> for a string \<open>key\<close>; \<open>None\<close> stands for \<open>KeyError\<close> on a dict without
  the key and for \<open>TypeError\<close> on every other value.
\<close>

fun py_item :: "json \<Rightarrow> string \<Rightarrow> json option" where
  "py_item (JObj kvs) k = map_of kvs k"
| "py_item v k = None"

text \<open>\<open>x.get(key, default)\<close>; \<open>None\<close> stands for \<open>AttributeError\<close> on a value that is not a dict.\<close>

fun py_get :: "json \<Rightarrow> string \<Rightarrow> json \<Rightarrow> json option" where
  "py_get (JObj kvs) k d = Some (case map_of kvs k of Some v \<Rightarrow> v | None \<Rightarrow> d)"
| "py_get v k d = None"

text \<open>
  The elements \<open>for x in v\<close> visits: those of a list, the keys of a dict, the characters of
  a string; \<open>None\<close> stands for \<open>TypeError\<close>.
\<close>

fun py_iter :: "json \<Rightarrow> json list option" where
  "py_iter (JArr xs) = Some xs"
| "py_iter (JObj kvs) = Some (map (JStr \<circ> fst) kvs)"
| "py_iter (JStr s) = Some (map (\<lambda>c. JStr [c]) s)"
| "py_iter v = None"

section \<open>\<open>get_mcp_timeout_for_function\<close>\<close>

text \<open>
  What \<open>open('mcp.json')\<close> followed by \<open>json.load\<close> gives: the file cannot be opened, its
  text is not JSON, or the loaded value.
\<close>

datatype json_file = Unreadable | NotJson | Loaded json

datatype lookup = Found nat | NoEntry | LookupFailed

text \<open>The \<open>if\<close>/\<open>elif\<close> chain on \<open>timeout_str\<close>, in seconds.\<close>

definition timeout_of :: "json \<Rightarrow> nat" where
  "timeout_of timeout_str =
     (if timeout_str = JStr ''default'' then 5
      else if timeout_str = JStr ''1 minute'' then 60
      else if timeout_str = JStr ''2 minutes'' then 120
      else if timeout_str = JStr ''20 minutes'' then 1200
      else 5)"

text \<open>
  The loop \<open>for tool in tools\<close>: the first tool whose \<open>name\<close> equals \<open>function_name\<close>
  decides; \<open>tool.get\<close> on a value that is not a dict raises, which the bare \<open>except\<close>
  swallows.
\<close>

fun find_tool :: "string \<Rightarrow> json list \<Rightarrow> lookup" where
  "find_tool function_name [] = NoEntry"
| "find_tool function_name (tool # rest) =
     (case py_get tool ''name'' JNull of
        None \<Rightarrow> LookupFailed
      | Some nm \<Rightarrow>
          if nm = JStr function_name
          then (case py_get tool ''timeout'' (JStr ''default'') of
                  None \<Rightarrow> LookupFailed
                | Some timeout_str \<Rightarrow> Found (timeout_of timeout_str))
          else find_tool function_name rest)"

text \<open>The \<open>try\<close> block: \<open>mcp_data.get('mcp', {}).get('tools', [])\<close> and the loop.\<close>

definition schema_lookup :: "json_file \<Rightarrow> string \<Rightarrow> lookup" where
  "schema_lookup f function_name =
     (case f of
        Unreadable \<Rightarrow> LookupFailed
      | NotJson \<Rightarrow> LookupFailed
      | Loaded mcp_data \<Rightarrow>
          (case py_get mcp_data ''mcp'' (JObj []) of
             None \<Rightarrow> LookupFailed
           | Some mcp \<Rightarrow>
               (case py_get mcp ''tools'' (JArr []) of
                  None \<Rightarrow> LookupFailed
                | Some tools \<Rightarrow>
                    (case py_iter tools of
                       None \<Rightarrow> LookupFailed
                     | Some ts \<Rightarrow> find_tool function_name ts))))"

definition timeout_map :: "(string \<times> nat) list" where
  "timeout_map =
     [(''build'', 1200), (''debug'', 60), (''loadSession'', 120),
      (''get_plugin_version'', 1), (''initialize'', 1), (''quit'', 1)]"

definition get_mcp_timeout_for_function :: "json_file \<Rightarrow> string \<Rightarrow> nat" where
  "get_mcp_timeout_for_function f function_name =
     (case schema_lookup f function_name of
        Found t \<Rightarrow> t
      | _ \<Rightarrow> (case map_of timeout_map function_name of Some t \<Rightarrow> t | None \<Rightarrow> 5))"

section \<open>\<open>send_mcp_command_socket\<close>\<close>

text \<open>
  How the endpoint and the operating system answer during one exchange. A call on the
  socket succeeds, raises \<open>socket.timeout\<close>, or raises another exception (connection
  refused, reset, ...). \<open>recv\<close> may also deliver bytes that \<open>decode()\<close> rejects.
\<close>

datatype io = Ok | TimesOut | Fails

datatype received = Data string | Undecodable | RecvTimesOut | RecvFails

record peer =
  socket_ok :: bool
  connect_result :: io
  send_result :: io
  recv_result :: received
  exchange_ms :: nat

text \<open>The calls made on the socket object, in order.\<close>

datatype sock_call =
    Call_socket
  | Call_settimeout nat
  | Call_connect
  | Call_send string
  | Call_recv
  | Call_close

text \<open>
  The function returns the stripped response, or the empty string from either \<open>except\<close>
  clause; the list is the calls made on the socket before it returns.
\<close>

definition send_mcp_command_socket ::
  "json_file \<Rightarrow> peer \<Rightarrow> string \<Rightarrow> string \<Rightarrow> string \<times> sock_call list" where
  "send_mcp_command_socket mcp_json p command function_name =
     (let timeout_seconds = get_mcp_timeout_for_function mcp_json function_name in
      if \<not> socket_ok p then ('''', [Call_socket])
      else
        let calls1 = [Call_socket, Call_settimeout timeout_seconds, Call_connect] in
        if connect_result p \<noteq> Ok then ('''', calls1)
        else
          let calls2 = calls1 @ [Call_send command] in
          if send_result p \<noteq> Ok then ('''', calls2)
          else
            let calls3 = calls2 @ [Call_recv] in
            (case recv_result p of
               Data response_data \<Rightarrow> (strip response_data, calls3 @ [Call_close])
             | Undecodable \<Rightarrow> ('''', calls3)
             | RecvTimesOut \<Rightarrow> ('''', calls3)
             | RecvFails \<Rightarrow> ('''', calls3)))"

text \<open>
  \<open>test_mcp_connection\<close>: \<open>connect_ex\<close> reports the failure as a code instead of raising;
  the result is whether that code is 0.
\<close>

definition test_mcp_connection :: "peer \<Rightarrow> bool" where
  "test_mcp_connection p = (socket_ok p \<and> connect_result p = Ok)"

section \<open>The outside world of the build script\<close>

text \<open>
  The script talks to the process table, to child processes and to the MCP endpoint. The
  environment fixes how the outside answers the \<open>k\<close>-th interaction of a run; the world
  carries the clock (milliseconds) and the interactions so far, most recent first.
\<close>

datatype call_site =
    KillCommand
  | TaskkillTree
  | TaskkillPattern
  | TaskkillTitle
  | Pkill
  | Killall

datatype event =
    Ran call_site bool
  | Liveness bool
  | Slept nat
  | Probed bool
  | Exchanged string string
  | Cmake bool

record env =
  windows :: bool
  spawn :: "nat \<Rightarrow> child option"
  alive :: "nat \<Rightarrow> string \<Rightarrow> bool"
  probe_ms :: "nat \<Rightarrow> nat"
  endpoint :: "nat \<Rightarrow> peer"
  mcp_json :: json_file
  loads :: "string \<Rightarrow> json option"

record world =
  clock :: nat
  events :: "event list"

text \<open>The two entries of the configuration dict that the process control reads.\<close>

record config =
  process_name :: string
  kill_command :: "string list"

datatype py_error = AttributeError

definition sleep :: "nat \<Rightarrow> world \<Rightarrow> world" where
  "sleep ms w = w\<lparr>clock := clock w + ms, events := Slept ms # events w\<rparr>"

text \<open>\<open>is_process_running(process_name)\<close>; an exception inside it already reads as \<open>False\<close>.\<close>

definition is_process_running :: "env \<Rightarrow> string \<Rightarrow> world \<Rightarrow> bool \<times> world" where
  "is_process_running e name w =
     (let k = length (events w); running = alive e k name
      in (running, w\<lparr>clock := clock w + probe_ms e k, events := Liveness running # events w\<rparr>))"

definition argv :: "config \<Rightarrow> call_site \<Rightarrow> string list" where
  "argv cfg site =
     (case site of
        KillCommand \<Rightarrow> kill_command cfg
      | TaskkillTree \<Rightarrow> [''taskkill'', ''/F'', ''/T'', ''/IM'', ''qtcreator.exe'']
      | TaskkillPattern \<Rightarrow> [''taskkill'', ''/F'', ''/IM'', ''*qtcreator*'']
      | TaskkillTitle \<Rightarrow> [''taskkill'', ''/F'', ''/FI'', ''WINDOWTITLE eq Qt Creator*'']
      | Pkill \<Rightarrow> [''pkill'', ''-9'', ''-f'', ''qtcreator'']
      | Killall \<Rightarrow> [''killall'', ''-9'', ''qtcreator''])"

text \<open>
  \<open>run_command(argv, check=False, show_errors=False)\<close> from one of the call sites of
  \<open>kill_qt_creator\<close>, with the default timeout; \<open>None\<close> when the call never returns.
\<close>

definition run_at :: "env \<Rightarrow> config \<Rightarrow> call_site \<Rightarrow> world \<Rightarrow> (bool \<times> world) option" where
  "run_at e cfg site w =
     (case run_command (CmdList (argv cfg site)) (spawn e (length (events w))) None of
        Blocked \<Rightarrow> None
      | Finished result t ls \<Rightarrow>
          Some (result, w\<lparr>clock := clock w + t, events := Ran site result # events w\<rparr>))"

text \<open>One socket exchange with the endpoint, and one connection probe.\<close>

definition exchange :: "env \<Rightarrow> string \<Rightarrow> string \<Rightarrow> world \<Rightarrow> string \<times> world" where
  "exchange e command function_name w =
     (let p = endpoint e (length (events w));
          response = fst (send_mcp_command_socket (mcp_json e) p command function_name)
      in (response, w\<lparr>clock := clock w + exchange_ms p,
                      events := Exchanged function_name response # events w\<rparr>))"

definition probe :: "env \<Rightarrow> world \<Rightarrow> bool \<times> world" where
  "probe e w =
     (let p = endpoint e (length (events w)); up = test_mcp_connection p
      in (up, w\<lparr>clock := clock w + exchange_ms p, events := Probed up # events w\<rparr>))"

section \<open>\<open>quit_qt_creator_gracefully\<close> and \<open>kill_qt_creator\<close>\<close>

text \<open>How a piece of a routine ends: it returns, raises, never returns, or falls through.\<close>

datatype step = Return bool | Raise py_error | Hang | Continue

text \<open>The loop \<open>for i in range(10)\<close> of the graceful quit, with \<open>n\<close> rounds left.\<close>

fun wait_for_quit :: "env \<Rightarrow> config \<Rightarrow> nat \<Rightarrow> world \<Rightarrow> bool \<times> world" where
  "wait_for_quit e cfg 0 w = (False, w)"
| "wait_for_quit e cfg (Suc n) w =
     (case is_process_running e (process_name cfg) w of
        (running, w1) \<Rightarrow>
          if \<not> running then (True, w1) else wait_for_quit e cfg n (sleep 1000 w1))"

definition quit_cmd :: string where
  "quit_cmd = ''{'' @ [CHR 0x22] @ ''jsonrpc'' @ [CHR 0x22] @ '':'' @ [CHR 0x22] @ ''2.0''
     @ [CHR 0x22] @ '','' @ [CHR 0x22] @ ''method'' @ [CHR 0x22] @ '':'' @ [CHR 0x22]
     @ ''tools/call'' @ [CHR 0x22] @ '','' @ [CHR 0x22] @ ''params'' @ [CHR 0x22] @ '':{''
     @ [CHR 0x22] @ ''name'' @ [CHR 0x22] @ '':'' @ [CHR 0x22] @ ''quit'' @ [CHR 0x22] @ '',''
     @ [CHR 0x22] @ ''arguments'' @ [CHR 0x22] @ '':{}},'' @ [CHR 0x22] @ ''id'' @ [CHR 0x22]
     @ '':1}'' @ [CHR 0x0A]"

definition quit_qt_creator_gracefully :: "env \<Rightarrow> config \<Rightarrow> world \<Rightarrow> bool \<times> world" where
  "quit_qt_creator_gracefully e cfg w =
     (case probe e w of
        (up, w1) \<Rightarrow>
          if up
          then (case exchange e quit_cmd ''quit'' w1 of
                  (response, w2) \<Rightarrow> wait_for_quit e cfg 10 w2)
          else (False, w1))"

text \<open>
  \<open>result and "SUCCESS" in str(result)\<close>, where \<open>result\<close> is the boolean that
  \<open>run_command\<close> returned.
\<close>

definition reports_success :: "bool \<Rightarrow> bool" where
  "reports_success result = (result \<and> contains ''SUCCESS'' (str_bool result))"

text \<open>Method 1 and the liveness check after it.\<close>

definition kill_standard :: "env \<Rightarrow> config \<Rightarrow> world \<Rightarrow> step \<times> world" where
  "kill_standard e cfg w =
     (case run_at e cfg KillCommand w of
        None \<Rightarrow> (Hang, w)
      | Some (result, w1) \<Rightarrow>
          if reports_success result then (Return True, w1)
          else (case is_process_running e (process_name cfg) (sleep 1000 w1) of
                  (running, w3) \<Rightarrow> if \<not> running then (Return True, w3) else (Continue, w3)))"

text \<open>Methods 3 and 4: \<open>if is_process_running(...)\<close>, then one more \<open>taskkill\<close>.\<close>

definition taskkill_if_running :: "env \<Rightarrow> config \<Rightarrow> call_site \<Rightarrow> world \<Rightarrow> step \<times> world" where
  "taskkill_if_running e cfg site w =
     (case is_process_running e (process_name cfg) w of
        (running, w1) \<Rightarrow>
          if running
          then (case run_at e cfg site w1 of
                  None \<Rightarrow> (Hang, w1)
                | Some (result, w2) \<Rightarrow>
                    if reports_success result then (Return True, w2)
                    else (Continue, sleep 1000 w2))
          else (Continue, w1))"

definition windows_methods :: "env \<Rightarrow> config \<Rightarrow> world \<Rightarrow> step \<times> world" where
  "windows_methods e cfg w =
     (case run_at e cfg TaskkillTree w of
        None \<Rightarrow> (Hang, w)
      | Some (result, w1) \<Rightarrow>
          if reports_success result then (Return True, w1)
          else (case taskkill_if_running e cfg TaskkillPattern (sleep 1000 w1) of
                  (Continue, w2) \<Rightarrow> taskkill_if_running e cfg TaskkillTitle w2
                | (s, w2) \<Rightarrow> (s, w2)))"

text \<open>
  The branch for Unix-like systems: \<open>result and result.returncode == 0\<close> reads the
  attribute \<open>returncode\<close> of \<open>result\<close> as soon as \<open>result\<close> is true.
\<close>

definition unix_methods :: "env \<Rightarrow> config \<Rightarrow> world \<Rightarrow> step \<times> world" where
  "unix_methods e cfg w =
     (case run_at e cfg Pkill w of
        None \<Rightarrow> (Hang, w)
      | Some (result, w1) \<Rightarrow>
          if result then (Raise AttributeError, w1)
          else (case is_process_running e (process_name cfg) (sleep 1000 w1) of
                  (running, w3) \<Rightarrow>
                    if running
                    then (case run_at e cfg Killall w3 of
                            None \<Rightarrow> (Hang, w3)
                          | Some (result2, w4) \<Rightarrow>
                              if result2 then (Raise AttributeError, w4)
                              else (Continue, sleep 1000 w4))
                    else (Continue, w3)))"

text \<open>The body of the \<open>while\<close> loop, one kill attempt.\<close>

definition kill_attempt :: "env \<Rightarrow> config \<Rightarrow> nat \<Rightarrow> nat \<Rightarrow> world \<Rightarrow> step \<times> world" where
  "kill_attempt e cfg timeout_ms start_time w =
     (case kill_standard e cfg w of
        (Continue, w1) \<Rightarrow>
          (case (if windows e then windows_methods e cfg w1 else unix_methods e cfg w1) of
             (Continue, w2) \<Rightarrow>
               if clock w2 - start_time \<ge> timeout_ms then (Return False, w2)
               else (Continue, sleep 2000 w2)
           | (s, w2) \<Rightarrow> (s, w2))
      | (s, w1) \<Rightarrow> (s, w1))"

text \<open>
  \<open>while time.time() - start_time < timeout_seconds\<close>. Every attempt that falls through
  has slept, so the clock passes the limit after finitely many attempts.
\<close>

function kill_loop :: "env \<Rightarrow> config \<Rightarrow> nat \<Rightarrow> nat \<Rightarrow> world \<Rightarrow> step \<times> world" where
  "kill_loop e cfg timeout_ms start_time w =
     (if clock w - start_time < timeout_ms
      then (case kill_attempt e cfg timeout_ms start_time w of
              (Continue, w') \<Rightarrow> kill_loop e cfg timeout_ms start_time w'
            | (s, w') \<Rightarrow> (s, w'))
      else (Return False, w))"
  by pat_completeness auto
termination
proof (relation "measure (\<lambda>(e, cfg, timeout_ms, start_time, w). start_time + timeout_ms - clock w)")
  show "wf (measure (\<lambda>(e, cfg, timeout_ms, start_time, w). start_time + timeout_ms - clock w))"
    by simp
next
  fix e :: env and cfg :: config and timeout_ms start_time :: nat and w x :: world and s :: step and w' :: world
  assume lt: "clock w - start_time < timeout_ms"
    and x: "(s, w') = kill_attempt e cfg timeout_ms start_time w" and c: "s = Continue"
  have run: "\<And>site v r v'. run_at e cfg site v = Some (r, v') \<Longrightarrow> clock v \<le> clock v'"
    by (auto simp: run_at_def split: run_result.splits)
  have live: "\<And>v r v'. is_process_running e (process_name cfg) v = (r, v') \<Longrightarrow> clock v \<le> clock v'"
    by (auto simp: is_process_running_def Let_def)
  have std: "\<And>v s v'. kill_standard e cfg v = (s, v') \<Longrightarrow> clock v \<le> clock v'"
    unfolding kill_standard_def
    by (auto simp: sleep_def split: option.splits prod.splits if_splits dest!: run live)
  have tk: "\<And>site v s v'. taskkill_if_running e cfg site v = (s, v') \<Longrightarrow> clock v \<le> clock v'"
    unfolding taskkill_if_running_def
    by (auto simp: sleep_def split: option.splits prod.splits if_splits dest!: run live)
  have win: "\<And>v s v'. windows_methods e cfg v = (s, v') \<Longrightarrow> clock v \<le> clock v'"
    unfolding windows_methods_def
    by (auto simp: sleep_def split: option.splits prod.splits if_splits step.splits dest!: run tk)
  have unix: "\<And>v s v'. unix_methods e cfg v = (s, v') \<Longrightarrow> clock v \<le> clock v'"
    unfolding unix_methods_def
    by (auto simp: sleep_def split: option.splits prod.splits if_splits dest!: run live)
  have "clock w + 2000 \<le> clock w'"
    using x[symmetric] c unfolding kill_attempt_def
    by (auto simp: sleep_def split: prod.splits step.splits if_splits dest!: std win unix)
  then show "((e, cfg, timeout_ms, start_time, w'), (e, cfg, timeout_ms, start_time, w))
        \<in> measure (\<lambda>(e, cfg, timeout_ms, start_time, w). start_time + timeout_ms - clock w)"
    using lt by simp
qed

declare kill_loop.simps [simp del]

definition kill_qt_creator :: "env \<Rightarrow> config \<Rightarrow> nat \<Rightarrow> world \<Rightarrow> step \<times> world" where
  "kill_qt_creator e cfg timeout_ms w = kill_loop e cfg timeout_ms (clock w) w"

text \<open>The interactions a routine added, most recent first.\<close>

definition new_events :: "world \<Rightarrow> world \<Rightarrow> event list" where
  "new_events w w' = take (length (events w') - length (events w)) (events w')"

section \<open>Sample configurations and environments\<close>

text \<open>The entries of \<open>KILL_COMMANDS\<close> and \<open>QT_CREATOR_PROCESSES\<close> in \<open>qt_config.py\<close>.\<close>

definition windows_config :: config where
  "windows_config =
     \<lparr>process_name = ''qtcreator.exe'',
      kill_command = [''taskkill'', ''/F'', ''/IM'', ''qtcreator.exe'']\<rparr>"

definition linux_config :: config where
  "linux_config =
     \<lparr>process_name = ''qtcreator'', kill_command = [''pkill'', ''-f'', ''qtcreator'']\<rparr>"

text \<open>A child that writes nothing and exits with code 0 after 100 ms.\<close>

definition quick_child :: child where
  "quick_child = \<lparr>child_outputs = [], child_exit = Some (100, 0), reaped_after = Some 0\<rparr>"

text \<open>
  A Windows machine on which Qt Creator is gone at the first check and the endpoint
  answers; a Linux machine on which every command exits with code 0 and the process is
  still listed.
\<close>

definition env_process_gone :: env where
  "env_process_gone =
     \<lparr>windows = True, spawn = (\<lambda>k. Some quick_child), alive = (\<lambda>k n. False),
      probe_ms = (\<lambda>k. 50),
      endpoint = (\<lambda>k. \<lparr>socket_ok = True, connect_result = Ok, send_result = Ok,
                          recv_result = Data ''{}'', exchange_ms = 20\<rparr>),
      mcp_json = Unreadable, loads = (\<lambda>s. None)\<rparr>"

definition env_unix_listed :: env where
  "env_unix_listed =
     \<lparr>windows = False, spawn = (\<lambda>k. Some quick_child), alive = (\<lambda>k n. True),
      probe_ms = (\<lambda>k. 50),
      endpoint = (\<lambda>k. \<lparr>socket_ok = False, connect_result = Fails, send_result = Fails,
                          recv_result = RecvFails, exchange_ms = 20\<rparr>),
      mcp_json = Unreadable, loads = (\<lambda>s. None)\<rparr>"

text \<open>A schema file whose tools cover every branch of the timeout chain.\<close>

definition sample_schema :: json_file where
  "sample_schema =
     Loaded (JObj [(''mcp'', JObj [(''tools'',
       JArr [JObj [(''name'', JStr ''debug'')],
             JObj [(''name'', JStr ''build''), (''timeout'', JStr ''1 minute'')],
             JObj [(''name'', JStr ''loadSession''), (''timeout'', JStr ''20 minutes'')],
             JObj [(''name'', JStr ''quit''), (''timeout'', JStr ''2 minutes'')],
             JObj [(''name'', JStr ''initialize''), (''timeout'', JStr ''default'')],
             JObj [(''name'', JStr ''getBuildStatus''), (''timeout'', JStr ''soon'')]])])])"

section \<open>\<open>verify_plugin_installation\<close>\<close>

text \<open>
  What \<open>os.path.getmtime\<close> (seconds) and \<open>os.path.getsize\<close> (bytes) report for a file;
  \<open>None\<close> below stands for a path for which \<open>os.path.exists\<close> is false.
\<close>

record artifact =
  mtime :: real
  byte_size :: nat

definition verify_plugin_installation :: "bool \<Rightarrow> artifact option \<Rightarrow> artifact option \<Rightarrow> bool" where
  "verify_plugin_installation is_windows built_plugin installed_plugin =
     (if is_windows
      then (case built_plugin of
              None \<Rightarrow> False
            | Some built \<Rightarrow>
                (case installed_plugin of
                   None \<Rightarrow> False
                 | Some installed \<Rightarrow>
                     if mtime installed < mtime built - 5 then False
                     else if byte_size built \<noteq> byte_size installed then False
                     else True))
      else True)"

section \<open>\<open>poll_build_status\<close>\<close>

definition dq :: "string \<Rightarrow> string" where
  "dq s = [CHR 0x22] @ s @ [CHR 0x22]"

definition status_command :: string where
  "status_command = ''{'' @ dq ''jsonrpc'' @ '':'' @ dq ''2.0'' @ '','' @ dq ''method'' @ '':''
     @ dq ''tools/call'' @ '','' @ dq ''params'' @ '':{'' @ dq ''name'' @ '':''
     @ dq ''getBuildStatus'' @ ''},'' @ dq ''id'' @ '':1}'' @ [CHR 0x0A]"

text \<open>
  \<open>re.search(r'Building: (\d+)%', status_text)\<close> and \<open>int(match.group(1))\<close>: the leftmost
  place where \<open>Building: \<close> is followed by a run of digits and a percent sign. The run is
  the longest one, since a shorter run is followed by a digit.
\<close>

definition match_building :: "string \<Rightarrow> nat option" where
  "match_building s =
     (if startswith s ''Building: ''
      then (let rest = drop 10 s; ds = takeWhile is_digit rest
            in if ds \<noteq> [] \<and> startswith (dropWhile is_digit rest) ''%''
               then Some (digits_val ds) else None)
      else None)"

fun search_building :: "string \<Rightarrow> nat option" where
  "search_building [] = None"
| "search_building (c # cs) =
     (case match_building (c # cs) of
        Some progress \<Rightarrow> Some progress
      | None \<Rightarrow> search_building cs)"

datatype verdict = Complete | InProgress

text \<open>
  The body of the \<open>try\<close> block for one response: \<open>Complete\<close> where it returns \<open>True\<close>.
  Everywhere else, an exception included (\<open>None\<close> from the operations on JSON values, which
  \<open>except Exception\<close> catches), the loop sleeps two seconds and polls again.
\<close>

definition read_status :: "env \<Rightarrow> string \<Rightarrow> verdict" where
  "read_status e response =
     (if response = [] then InProgress
      else case loads e response of
        None \<Rightarrow> InProgress
      | Some status_data \<Rightarrow>
          (case py_in ''result'' status_data of
             None \<Rightarrow> InProgress
           | Some False \<Rightarrow> InProgress
           | Some True \<Rightarrow>
               (case py_item status_data ''result'' of
                  None \<Rightarrow> InProgress
                | Some status_text \<Rightarrow>
                    if \<not> truthy status_text then InProgress
                    else (case py_in ''Building:'' status_text of
                            None \<Rightarrow> InProgress
                          | Some has_building \<Rightarrow>
                              if has_building \<and> py_in ''%'' status_text = Some True
                              then (case status_text of
                                      JStr s \<Rightarrow>
                                        (case search_building s of
                                           Some progress \<Rightarrow>
                                             if progress = 100 then Complete else InProgress
                                         | None \<Rightarrow> InProgress)
                                    | _ \<Rightarrow> InProgress)
                              else if py_in ''Status: Not building'' status_text = Some True
                              then Complete
                              else InProgress))))"

text \<open>
  \<open>while time.time() - start_time < max_poll_time\<close>: one exchange, then either the return
  or \<open>time.sleep(2)\<close>.
\<close>

function poll_loop_status :: "env \<Rightarrow> nat \<Rightarrow> nat \<Rightarrow> world \<Rightarrow> bool \<times> world" where
  "poll_loop_status e max_poll_ms start_time w =
     (if clock w - start_time < max_poll_ms
      then (case exchange e status_command ''getBuildStatus'' w of
              (response, w1) \<Rightarrow>
                (case read_status e response of
                   Complete \<Rightarrow> (True, w1)
                 | InProgress \<Rightarrow> poll_loop_status e max_poll_ms start_time (sleep 2000 w1)))
      else (False, w))"
  by pat_completeness auto
termination
  by (relation "measure (\<lambda>(e, max_poll_ms, start_time, w). start_time + max_poll_ms - clock w)")
     (auto simp: exchange_def sleep_def Let_def)

declare poll_loop_status.simps [simp del]

definition poll_build_status :: "env \<Rightarrow> nat \<Rightarrow> world \<Rightarrow> bool \<times> world" where
  "poll_build_status e max_poll_ms w = poll_loop_status e max_poll_ms (clock w) w"

section \<open>\<open>test_mcp_version\<close>\<close>

definition init_query :: string where
  "init_query = ''{'' @ dq ''jsonrpc'' @ '':'' @ dq ''2.0'' @ '','' @ dq ''method'' @ '':''
     @ dq ''initialize'' @ '','' @ dq ''id'' @ '':1}'' @ [CHR 0x0A]"

text \<open>\<open>s.split(d)\<close> for a one-character separator: every occurrence splits.\<close>

fun split_on :: "char \<Rightarrow> string \<Rightarrow> string list" where
  "split_on d [] = [[]]"
| "split_on d (c # cs) =
     (if c = d then [] # split_on d cs
      else (case split_on d cs of
              p # ps \<Rightarrow> (c # p) # ps
            | [] \<Rightarrow> [[c]]))"

text \<open>
  The digits that \<open>int\<close> accepts: decimal digits with single underscores between them.
\<close>

fun valid_digits :: "string \<Rightarrow> bool" where
  "valid_digits [] = False"
| "valid_digits [c] = is_digit c"
| "valid_digits (c # d # r) =
     (is_digit c \<and> (if d = CHR ''_'' then valid_digits r else valid_digits (d # r)))"

text \<open>
  \<open>int(s)\<close>: surrounding whitespace is dropped, one sign is allowed; \<open>None\<close> stands for
  \<open>ValueError\<close>.
\<close>

definition py_int :: "string \<Rightarrow> int option" where
  "py_int s =
     (let t = strip s;
          negative = startswith t ''-'';
          body = (if startswith t ''-'' \<or> startswith t ''+'' then tl t else t)
      in if valid_digits body
         then Some ((if negative then - 1 else 1)
                      * int (digits_val (filter (\<lambda>c. c \<noteq> CHR ''_'') body)))
         else None)"

text \<open>
  What \<open>test_mcp_version\<close> makes of \<open>response_data\<close>. Every exception on the way is
  caught and gives \<open>False\<close>, as does each \<open>else\<close> branch.
\<close>

definition check_version :: "env \<Rightarrow> string \<Rightarrow> bool" where
  "check_version e response_data =
     (if response_data = [] then False
      else case loads e response_data of
        None \<Rightarrow> False
      | Some response \<Rightarrow>
          (case py_in ''result'' response of
             None \<Rightarrow> False
           | Some False \<Rightarrow> False
           | Some True \<Rightarrow>
               (case py_item response ''result'' of
                  None \<Rightarrow> False
                | Some result \<Rightarrow>
                    if \<not> truthy result then False
                    else (case py_get result ''serverInfo'' (JObj []) of
                            None \<Rightarrow> False
                          | Some server_info \<Rightarrow>
                              (case py_get server_info ''version'' (JStr ''unknown'') of
                                 Some (JStr version) \<Rightarrow>
                                   (let version_parts = split_on CHR ''.'' version
                                    in if length version_parts \<ge> 3
                                       then (case py_int (version_parts ! 2) of
                                               None \<Rightarrow> False
                                             | Some patch_version \<Rightarrow> patch_version \<ge> 1)
                                       else False)
                               | _ \<Rightarrow> False)))))"

definition test_mcp_version :: "env \<Rightarrow> world \<Rightarrow> bool \<times> world" where
  "test_mcp_version e w =
     (case exchange e init_query ''initialize'' w of
        (response_data, w1) \<Rightarrow> (check_version e response_data, w1))"

section \<open>\<open>bump_version\<close> and \<open>regenerate_version_files\<close>\<close>

text \<open>
  \<open>re.search(prefix + r'(\d+)', s)\<close>: the digits of the leftmost match; and the same for
  \<open>prefix + r'"([^"]+)"'\<close>, a quoted run without a double quote in it.
\<close>

definition match_digits :: "string \<Rightarrow> string \<Rightarrow> string option" where
  "match_digits prefix s =
     (if startswith s prefix
      then (let ds = takeWhile is_digit (drop (length prefix) s)
            in if ds \<noteq> [] then Some ds else None)
      else None)"

fun search_digits :: "string \<Rightarrow> string \<Rightarrow> string option" where
  "search_digits prefix [] = None"
| "search_digits prefix (c # cs) =
     (case match_digits prefix (c # cs) of
        Some ds \<Rightarrow> Some ds
      | None \<Rightarrow> search_digits prefix cs)"

definition match_quoted :: "string \<Rightarrow> string \<Rightarrow> string option" where
  "match_quoted prefix s =
     (if startswith s (prefix @ [CHR 0x22])
      then (let rest = drop (length prefix + 1) s;
                body = takeWhile (\<lambda>c. c \<noteq> CHR 0x22) rest
            in if body \<noteq> [] \<and> startswith (dropWhile (\<lambda>c. c \<noteq> CHR 0x22) rest) [CHR 0x22]
               then Some body else None)
      else None)"

fun search_quoted :: "string \<Rightarrow> string \<Rightarrow> string option" where
  "search_quoted prefix [] = None"
| "search_quoted prefix (c # cs) =
     (case match_quoted prefix (c # cs) of
        Some body \<Rightarrow> Some body
      | None \<Rightarrow> search_quoted prefix cs)"

text \<open>\<open>re.sub(prefix + r'\d+', repl, s)\<close>: every match, left to right, is replaced.\<close>

function sub_digits :: "string \<Rightarrow> string \<Rightarrow> string \<Rightarrow> string" where
  "sub_digits prefix repl [] = []"
| "sub_digits prefix repl (c # cs) =
     (case match_digits prefix (c # cs) of
        Some ds \<Rightarrow> repl @ sub_digits prefix repl (drop (length prefix + length ds) (c # cs))
      | None \<Rightarrow> c # sub_digits prefix repl cs)"
  by pat_completeness auto
termination
  by (relation "measure (\<lambda>(prefix, repl, s). length s)")
     (auto simp: match_digits_def Let_def split: if_splits)

text \<open>The decimal text of a number, as an f-string prints it.\<close>

function str_nat :: "nat \<Rightarrow> string" where
  "str_nat n =
     (if n < 10 then [''0123456789'' ! n]
      else str_nat (n div 10) @ [''0123456789'' ! (n mod 10)])"
  by pat_completeness auto
termination
  by (relation "measure id") auto

declare str_nat.simps [simp del]

text \<open>
  What \<open>with open(path, 'w') as f: f.write(text)\<close> does to a file: the text is written;
  or \<open>open\<close> raises (a read-only file, a missing directory) and the file is untouched; or
  \<open>open\<close> succeeds, which truncates the file, and the write raises (a full disk), which
  leaves the file empty.
\<close>

datatype write_outcome = Written | CannotOpen | WriteFails

text \<open>
  The new content of the file, and whether the \<open>with\<close> block ended without an exception.
\<close>

definition write_file :: "write_outcome \<Rightarrow> string option \<Rightarrow> string \<Rightarrow> bool \<times> string option" where
  "write_file how old new_text =
     (case how of
        Written \<Rightarrow> (True, Some new_text)
      | CannotOpen \<Rightarrow> (False, old)
      | WriteFails \<Rightarrow> (False, Some []))"

text \<open>
  The two files the version step touches. \<open>version_cmake = None\<close>: the file cannot be
  opened for reading; the \<open>write\<close> fields say how writing each file goes.
\<close>

record files =
  version_cmake :: "string option"
  version_cmake_write :: write_outcome
  version_h :: "string option"
  version_h_write :: write_outcome

text \<open>
  \<open>bump_version()\<close> returns nothing; its \<open>except\<close> clause and its \<open>else\<close> branch print
  an error. Nothing is written unless the patch field was found.
\<close>

definition bump_version :: "files \<Rightarrow> files" where
  "bump_version fs =
     (case version_cmake fs of
        None \<Rightarrow> fs
      | Some content \<Rightarrow>
          (case search_digits ''PLUGIN_VERSION_PATCH '' content of
             None \<Rightarrow> fs
           | Some ds \<Rightarrow>
               (let current_patch = digits_val ds;
                    new_patch = current_patch + 1;
                    new_content = sub_digits ''PLUGIN_VERSION_PATCH ''
                                    (''PLUGIN_VERSION_PATCH '' @ str_nat new_patch) content
                in fs\<lparr>version_cmake :=
                        snd (write_file (version_cmake_write fs) (version_cmake fs) new_content)\<rparr>)))"

definition version_h_content :: "string \<Rightarrow> string \<Rightarrow> string \<Rightarrow> string \<Rightarrow> string \<Rightarrow> string" where
  "version_h_content major minor patch name json_file =
     ''#pragma once'' @ [CHR 0x0A, CHR 0x0A]
     @ ''// Plugin versioning - centralized location'' @ [CHR 0x0A]
     @ ''#define PLUGIN_VERSION_MAJOR '' @ major @ [CHR 0x0A]
     @ ''#define PLUGIN_VERSION_MINOR '' @ minor @ [CHR 0x0A]
     @ ''#define PLUGIN_VERSION_PATCH '' @ patch @ [CHR 0x0A, CHR 0x0A]
     @ ''#define PLUGIN_VERSION_STRING '' @ dq (major @ ''.'' @ minor @ ''.'' @ patch) @ [CHR 0x0A]
     @ ''#define PLUGIN_NAME_VERSIONED '' @ dq name @ [CHR 0x0A]
     @ ''#define PLUGIN_JSON_FILE '' @ dq json_file @ [CHR 0x0A]"

definition regenerate_version_files :: "files \<Rightarrow> bool \<times> files" where
  "regenerate_version_files fs =
     (case version_cmake fs of
        None \<Rightarrow> (False, fs)
      | Some content \<Rightarrow>
          (case (search_digits ''PLUGIN_VERSION_MAJOR '' content,
                 search_digits ''PLUGIN_VERSION_MINOR '' content,
                 search_digits ''PLUGIN_VERSION_PATCH '' content,
                 search_quoted ''PLUGIN_NAME_VERSIONED '' content,
                 search_quoted ''PLUGIN_JSON_FILE '' content) of
             (Some major, Some minor, Some patch, Some name, Some json_file) \<Rightarrow>
               (case write_file (version_h_write fs) (version_h fs)
                       (version_h_content major minor patch name json_file) of
                  (ok, h) \<Rightarrow> (ok, fs\<lparr>version_h := h\<rparr>))
           | _ \<Rightarrow> (False, fs)))"

section \<open>\<open>main\<close>\<close>


text \<open>
  What \<open>main\<close> finds on the machine besides the processes and the endpoint: whether the
  configuration and the tools are found, the two \<open>cmake\<close> command lines, and the results
  of cleaning, copying and launching, which this development does not look into.
\<close>

record site =
  config_found :: bool
  creator_path_exists :: bool
  vs_found :: bool
  cmake_found :: bool
  cmake_cache_exists :: bool
  qt_version_found :: bool
  configure_cmd :: cmd
  build_cmd :: cmd
  clean_ok :: bool
  install_success :: bool
  built_file :: "artifact option"
  installed_file :: "artifact option"
  launch_ok :: bool













section \<open>Sample endpoints, sites and version files\<close>

text \<open>The reply \<open>{"result":"..."}\<close> and the value \<open>json.loads\<close> gives for it.\<close>

definition result_body :: "string \<Rightarrow> string" where
  "result_body txt = ''{'' @ dq ''result'' @ '':'' @ dq txt @ ''}''"

definition answering :: "(nat \<Rightarrow> string) \<Rightarrow> nat \<Rightarrow> peer" where
  "answering body k =
     \<lparr>socket_ok = True, connect_result = Ok, send_result = Ok,
      recv_result = Data (body k), exchange_ms = 20\<rparr>"

text \<open>
  An endpoint that reports 57 percent at the first poll and 100 percent afterwards, and
  one that reports an idle build together with the progress of the last run.
\<close>

definition env_building :: env where
  "env_building =
     \<lparr>windows = True, spawn = (\<lambda>k. None), alive = (\<lambda>k n. True), probe_ms = (\<lambda>k. 50),
      endpoint = answering (\<lambda>k. if k = 0 then result_body ''Building: 57%''
                                 else result_body ''Building: 100%''),
      mcp_json = Unreadable,
      loads = map_of [(result_body ''Building: 57%'', JObj [(''result'', JStr ''Building: 57%'')]),
                      (result_body ''Building: 100%'', JObj [(''result'', JStr ''Building: 100%'')])]\<rparr>"

definition idle_text :: string where
  "idle_text = ''Status: Not building (last run: Building: 57%)''"

definition env_idle :: env where
  "env_idle =
     \<lparr>windows = True, spawn = (\<lambda>k. None), alive = (\<lambda>k n. True), probe_ms = (\<lambda>k. 50),
      endpoint = answering (\<lambda>k. result_body idle_text),
      mcp_json = Unreadable,
      loads = map_of [(result_body idle_text, JObj [(''result'', JStr idle_text)])]\<rparr>"

text \<open>The response to the \<open>k\<close>-th interaction of a run, when that is a status poll.\<close>

definition status_reply :: "env \<Rightarrow> nat \<Rightarrow> string" where
  "status_reply e k =
     fst (send_mcp_command_socket (mcp_json e) (endpoint e k) status_command ''getBuildStatus'')"

text \<open>
  The reply to \<open>initialize\<close> that carries \<open>serverInfo\<close> with the given version, and the
  value \<open>json.loads\<close> gives for it.
\<close>

definition init_body :: "string \<Rightarrow> string" where
  "init_body version =
     ''{'' @ dq ''result'' @ '':{'' @ dq ''serverInfo'' @ '':{'' @ dq ''name'' @ '':''
     @ dq ''Qt MCP Plugin'' @ '','' @ dq ''version'' @ '':'' @ dq version @ ''}}}''"

definition init_json :: "string \<Rightarrow> json" where
  "init_json version =
     JObj [(''result'', JObj [(''serverInfo'',
       JObj [(''name'', JStr ''Qt MCP Plugin''), (''version'', JStr version)])])]"

text \<open>
  A Windows machine without a running Qt Creator, on which every command exits with code
  0 and the endpoint is an instance of the plugin that reports the given version.
\<close>

definition env_reporting :: "string \<Rightarrow> env" where
  "env_reporting version =
     \<lparr>windows = True, spawn = (\<lambda>k. Some quick_child), alive = (\<lambda>k n. False),
      probe_ms = (\<lambda>k. 50), endpoint = answering (\<lambda>k. init_body version),
      mcp_json = Unreadable,
      loads = map_of [(init_body version, init_json version)]\<rparr>"


text \<open>
  A version file with every field \<open>regenerate_version_files\<close> looks for, at the given
  patch.
\<close>

definition sample_version_cmake :: "nat \<Rightarrow> string" where
  "sample_version_cmake patch =
     ''set(PLUGIN_VERSION_MAJOR 1)'' @ [CHR 0x0A]
     @ ''set(PLUGIN_VERSION_MINOR 31)'' @ [CHR 0x0A]
     @ ''set(PLUGIN_VERSION_PATCH '' @ str_nat patch @ '')'' @ [CHR 0x0A]
     @ ''set(PLUGIN_NAME_VERSIONED '' @ dq ''Qt_MCP_Plugin'' @ '')'' @ [CHR 0x0A]
     @ ''set(PLUGIN_JSON_FILE '' @ dq ''Qt_MCP_Plugin.json'' @ '')'' @ [CHR 0x0A]"

text \<open>
  The version files at the given patch, with the given fate of a write to
  \<open>version.cmake\<close>.
\<close>

definition sample_files :: "nat \<Rightarrow> write_outcome \<Rightarrow> files" where
  "sample_files patch how =
     \<lparr>version_cmake = Some (sample_version_cmake patch), version_cmake_write = how,
      version_h = None, version_h_write = Written\<rparr>"

section \<open>Properties of \<open>run_command\<close>\<close>

lemma poll_loop_exits:
  "child_exit ch = Some (te, rc) \<Longrightarrow> poll_loop ch tmo now pending out \<noteq> Stuck"
proof (induction ch tmo now pending out rule: poll_loop.induct)
  case (1 ch timeout now pending out)
  show ?case
    using 1 by (subst poll_loop.simps) (auto split: list.splits)
qed

lemma wait_after_terminate_exits:
  "child_exit ch = Some (te, rc) \<Longrightarrow> wait_after_terminate ch now \<noteq> None"
  by (simp add: wait_after_terminate_def split: option.splits)

lemma run_command_returns:
  assumes "child_exit ch = Some (te, rc)"
  shows "run_command c (Some ch) tmo \<noteq> Blocked"
proof -
  have a: "\<And>t. poll_loop ch t 0 (child_outputs ch) [] \<noteq> Stuck"
    using assms by (rule poll_loop_exits)
  have b: "\<And>now. wait_after_terminate ch now \<noteq> None"
    using assms by (rule wait_after_terminate_exits)
  show ?thesis
  proof (cases "poll_loop ch (case tmo of None \<Rightarrow> 3600000 | Some t \<Rightarrow> t) 0 (child_outputs ch) []")
    case (Exited now pending out)
    then show ?thesis by (simp add: run_command_def Let_def)
  next
    case (TimedOut now out)
    moreover obtain t where "wait_after_terminate ch now = Some t"
      using b[of now] by auto
    ultimately show ?thesis by (simp add: run_command_def Let_def)
  next
    case Stuck
    with a show ?thesis by simp
  qed
qed



lemma after_exit_without_xcopy:
  "\<not> contains ''xcopy'' (lower (str_cmd c)) \<Longrightarrow> after_exit c rc ls = (rc = 0)"
  by (simp add: after_exit_def)



lemma startswith_iff: "startswith s p \<longleftrightarrow> (\<exists>ss. s = p @ ss)"
  by (induction s p rule: startswith.induct) auto

lemma contains_iff: "contains m s \<longleftrightarrow> (\<exists>ps ss. s = ps @ m @ ss)"
proof (induction s)
  case Nil
  then show ?case by auto
next
  case (Cons c cs)
  show ?case
  proof
    assume "contains m (c # cs)"
    then consider "startswith (c # cs) m" | "contains m cs" by auto
    then show "\<exists>ps ss. c # cs = ps @ m @ ss"
    proof cases
      case 1
      then obtain ss where "c # cs = m @ ss" by (auto simp: startswith_iff)
      then have "c # cs = [] @ m @ ss" by simp
      then show ?thesis by blast
    next
      case 2
      then obtain ps ss where "cs = ps @ m @ ss" using Cons.IH by auto
      then have "c # cs = (c # ps) @ m @ ss" by simp
      then show ?thesis by blast
    qed
  next
    assume "\<exists>ps ss. c # cs = ps @ m @ ss"
    then obtain ps ss where e: "c # cs = ps @ m @ ss" by auto
    show "contains m (c # cs)"
    proof (cases ps)
      case Nil
      with e have "startswith (c # cs) m" by (auto simp: startswith_iff)
      then show ?thesis by simp
    next
      case (Cons p ps')
      with e have "cs = ps' @ m @ ss" by simp
      then have "contains m cs" using Cons.IH by auto
      then show ?thesis by simp
    qed
  qed
qed









lemma silent_child_blocks:
  assumes "child_outputs ch = []" and "child_exit ch = None"
  shows "run_command c (Some ch) tmo = Blocked"
  using assms by (simp add: run_command_def poll_loop.simps has_exited_def)

text \<open>
  C5 at a failing input. With a timeout of one second, a child that writes nothing and
  never exits leaves \<open>run_command\<close> inside \<open>readline()\<close>: the call does not return at
  all. A child that writes nothing and exits with code 0 after ten seconds makes it return
  \<open>True\<close>, ten seconds after the start: the timeout test is not reached again once the
  read unblocks.
\<close>

theorem run_command_silent_child:
  "run_command (CmdList [''sleep'', ''infinity''])
     (Some \<lparr>child_outputs = [], child_exit = None, reaped_after = Some 0\<rparr>) (Some 1000)
   = Blocked
   \<and> run_command (CmdList [''sleep'', ''10''])
     (Some \<lparr>child_outputs = [], child_exit = Some (10000, 0), reaped_after = Some 0\<rparr>)
     (Some 1000)
   = Finished True 10010 []"
  by (simp add: run_command_def poll_loop.simps has_exited_def after_exit_def returncode_def
      str_cmd_def repr_str_def repr_char_def lower_def lower_char_def cmd_truthy_def Let_def)

section \<open>Properties of the process control\<close>

lemma never_reports_success: "\<not> reports_success result"
  by (simp add: reports_success_def str_bool_def)

lemma kill_standard_true:
  "kill_standard e cfg w = (Return True, w') \<Longrightarrow> \<exists>rest. events w' = Liveness False # rest"
  unfolding kill_standard_def
  by (auto simp: never_reports_success is_process_running_def Let_def
           split: option.splits prod.splits if_splits)

lemma taskkill_if_running_not_true:
  "taskkill_if_running e cfg site w \<noteq> (Return True, w')"
  unfolding taskkill_if_running_def
  by (auto simp: never_reports_success split: option.splits prod.splits if_splits)

lemma windows_methods_not_true: "windows_methods e cfg w \<noteq> (Return True, w')"
  unfolding windows_methods_def
  using taskkill_if_running_not_true
  by (auto simp: never_reports_success split: option.splits prod.splits step.splits if_splits)

lemma unix_methods_not_true: "unix_methods e cfg w \<noteq> (Return True, w')"
  unfolding unix_methods_def
  by (auto split: option.splits prod.splits if_splits)

lemma kill_attempt_true:
  assumes "kill_attempt e cfg timeout_ms start_time w = (Return True, w')"
  shows "\<exists>rest. events w' = Liveness False # rest"
proof -
  obtain s1 w1 where k: "kill_standard e cfg w = (s1, w1)" by (cases "kill_standard e cfg w")
  show ?thesis
  proof (cases s1)
    case Continue
    obtain s2 w2 where m: "(if windows e then windows_methods e cfg w1 else unix_methods e cfg w1) = (s2, w2)"
      by (cases "if windows e then windows_methods e cfg w1 else unix_methods e cfg w1")
    have "s2 \<noteq> Return True \<or> w2 \<noteq> w'"
      using m windows_methods_not_true[of e cfg w1 w'] unix_methods_not_true[of e cfg w1 w']
      by (auto split: if_splits)
    with assms k Continue m show ?thesis
      by (cases s2) (auto simp: kill_attempt_def split: if_splits)
  next
    case (Return b)
    with assms k have "kill_standard e cfg w = (Return True, w')" by (simp add: kill_attempt_def)
    then show ?thesis by (rule kill_standard_true)
  next
    case (Raise x)
    with assms k show ?thesis by (simp add: kill_attempt_def)
  next
    case Hang
    with assms k show ?thesis by (simp add: kill_attempt_def)
  qed
qed

lemma kill_loop_true:
  "kill_loop e cfg timeout_ms start_time w = (Return True, w') \<Longrightarrow>
   \<exists>rest. events w' = Liveness False # rest"
proof (induction e cfg timeout_ms start_time w rule: kill_loop.induct)
  case (1 e cfg timeout_ms start_time w)
  show ?case
  proof (cases "clock w - start_time < timeout_ms")
    case False
    with "1.prems" show ?thesis by (simp add: kill_loop.simps)
  next
    case True
    obtain s w1 where a: "kill_attempt e cfg timeout_ms start_time w = (s, w1)"
      by (cases "kill_attempt e cfg timeout_ms start_time w")
    show ?thesis
    proof (cases "s = Continue")
      case c: True
      have "kill_loop e cfg timeout_ms start_time w1 = (Return True, w')"
        using "1.prems" True a c by (simp add: kill_loop.simps)
      from "1.IH"[OF True a[symmetric] c this] show ?thesis .
    next
      case False
      then have "kill_loop e cfg timeout_ms start_time w = (s, w1)"
        using True a by (cases s) (simp_all add: kill_loop.simps)
      with "1.prems" a have "kill_attempt e cfg timeout_ms start_time w = (Return True, w')" by simp
      then show ?thesis by (rule kill_attempt_true)
    qed
  qed
qed

lemma kill_loop_not_continue: "fst (kill_loop e cfg timeout_ms start_time w) \<noteq> Continue"
proof (induction e cfg timeout_ms start_time w rule: kill_loop.induct)
  case (1 e cfg timeout_ms start_time w)
  show ?case
  proof (cases "clock w - start_time < timeout_ms")
    case False
    then show ?thesis by (simp add: kill_loop.simps)
  next
    case True
    obtain s w1 where a: "kill_attempt e cfg timeout_ms start_time w = (s, w1)"
      by (cases "kill_attempt e cfg timeout_ms start_time w")
    show ?thesis
    proof (cases "s = Continue")
      case c: True
      have "kill_loop e cfg timeout_ms start_time w = kill_loop e cfg timeout_ms start_time w1"
        using True a c by (simp add: kill_loop.simps)
      with "1.IH"[OF True a[symmetric] c] show ?thesis by simp
    next
      case False
      then have "kill_loop e cfg timeout_ms start_time w = (s, w1)"
        using True a by (cases s) (simp_all add: kill_loop.simps)
      with False show ?thesis by simp
    qed
  qed
qed

lemma wait_for_quit_true:
  "wait_for_quit e cfg n w = (True, w') \<Longrightarrow> \<exists>rest. events w' = Liveness False # rest"
proof (induction n arbitrary: w)
  case 0
  then show ?case by simp
next
  case (Suc n)
  then show ?case
    by (auto simp: is_process_running_def Let_def split: prod.splits if_splits)
qed

lemma quit_true:
  "quit_qt_creator_gracefully e cfg w = (True, w') \<Longrightarrow> \<exists>rest. events w' = Liveness False # rest"
  unfolding quit_qt_creator_gracefully_def
  by (auto split: prod.splits if_splits dest: wait_for_quit_true)


lemma run_at_log: "run_at e cfg site w = Some (r, w') \<Longrightarrow> events w' = Ran site r # events w"
  by (auto simp: run_at_def split: run_result.splits)

lemma is_process_running_log:
  "is_process_running e n w = (r, w') \<Longrightarrow> events w' = Liveness r # events w"
  by (auto simp: is_process_running_def Let_def)

lemma log_sleep: "events (sleep ms w) = Slept ms # events w"
  by (simp add: sleep_def)

lemma kill_standard_log:
  assumes "kill_standard e cfg w = (s, w')"
  shows "\<exists>es. events w' = es @ events w \<and> Ran Pkill True \<notin> set es \<and> Ran Killall True \<notin> set es"
proof (cases "run_at e cfg KillCommand w")
  case None
  with assms show ?thesis by (simp add: kill_standard_def)
next
  case (Some p)
  obtain r w1 where p: "p = (r, w1)" by (cases p)
  have l1: "events w1 = Ran KillCommand r # events w" using Some p by (simp add: run_at_log)
  obtain a w3 where lv: "is_process_running e (process_name cfg) (sleep 1000 w1) = (a, w3)"
    by (cases "is_process_running e (process_name cfg) (sleep 1000 w1)")
  have l3: "events w3 = [Liveness a, Slept 1000, Ran KillCommand r] @ events w"
    using is_process_running_log[OF lv] l1 by (simp add: log_sleep)
  have "w' = w3" using assms Some p lv
    by (auto simp: kill_standard_def never_reports_success split: if_splits)
  with l3 show ?thesis by auto
qed

lemma unix_methods_log:
  assumes "unix_methods e cfg w = (s, w')"
  shows "\<exists>es. events w' = es @ events w \<and>
          (Ran Pkill True \<in> set es \<or> Ran Killall True \<in> set es \<longrightarrow> s = Raise AttributeError)"
proof (cases "run_at e cfg Pkill w")
  case None
  with assms show ?thesis by (simp add: unix_methods_def)
next
  case (Some p)
  obtain r w1 where p: "p = (r, w1)" by (cases p)
  have l1: "events w1 = [Ran Pkill r] @ events w" using Some p by (simp add: run_at_log)
  show ?thesis
  proof (cases r)
    case True
    with assms Some p have "s = Raise AttributeError" "w' = w1" by (auto simp: unix_methods_def)
    with l1 show ?thesis by blast
  next
    case r: False
    obtain a w3 where lv: "is_process_running e (process_name cfg) (sleep 1000 w1) = (a, w3)"
      by (cases "is_process_running e (process_name cfg) (sleep 1000 w1)")
    have l3: "events w3 = [Liveness a, Slept 1000, Ran Pkill False] @ events w"
      using is_process_running_log[OF lv] l1 r by (simp add: log_sleep)
    show ?thesis
    proof (cases a)
      case False
      with assms Some p r lv have "w' = w3" by (auto simp: unix_methods_def)
      with l3 show ?thesis by auto
    next
      case a: True
      show ?thesis
      proof (cases "run_at e cfg Killall w3")
        case None
        with assms Some p r lv a have "w' = w3" by (auto simp: unix_methods_def)
        with l3 show ?thesis by auto
      next
        case k: (Some q)
        obtain r2 w4 where q: "q = (r2, w4)" by (cases q)
        have l4: "events w4 = [Ran Killall r2, Liveness a, Slept 1000, Ran Pkill False] @ events w"
          using run_at_log[of e cfg Killall w3 r2 w4] k q l3 by simp
        show ?thesis
        proof (cases r2)
          case True
          with assms Some p r lv a k q have "s = Raise AttributeError" "w' = w4"
            by (auto simp: unix_methods_def)
          with l4 show ?thesis by blast
        next
          case False
          with assms Some p r lv a k q have "w' = sleep 1000 w4"
            by (auto simp: unix_methods_def)
          then have "events w' = [Slept 1000, Ran Killall False, Liveness a, Slept 1000, Ran Pkill False] @ events w"
            using l4 False by (simp add: log_sleep)
          then show ?thesis by auto
        qed
      qed
    qed
  qed
qed

lemma kill_attempt_log:
  assumes nw: "\<not> windows e" and k: "kill_attempt e cfg timeout_ms start_time w = (s, w')"
  shows "\<exists>es. events w' = es @ events w \<and>
          (Ran Pkill True \<in> set es \<or> Ran Killall True \<in> set es \<longrightarrow> s = Raise AttributeError)"
proof -
  obtain s1 w1 where st: "kill_standard e cfg w = (s1, w1)" by (cases "kill_standard e cfg w")
  from kill_standard_log[OF st] obtain es1 where
    e1: "events w1 = es1 @ events w" "Ran Pkill True \<notin> set es1" "Ran Killall True \<notin> set es1" by blast
  show ?thesis
  proof (cases "s1 = Continue")
    case False
    then have "s = s1" "w' = w1" using k st by (cases s1; simp add: kill_attempt_def)+
    with e1 show ?thesis by blast
  next
    case True
    obtain s2 w2 where u: "unix_methods e cfg w1 = (s2, w2)" by (cases "unix_methods e cfg w1")
    from unix_methods_log[OF u] obtain es2 where
      e2: "events w2 = es2 @ events w1"
          "Ran Pkill True \<in> set es2 \<or> Ran Killall True \<in> set es2 \<longrightarrow> s2 = Raise AttributeError"
      by blast
    show ?thesis
    proof (cases "s2 = Continue")
      case False
      then have "s = s2" "w' = w2" using k st True u nw by (cases s2; simp add: kill_attempt_def)+
      moreover have "events w2 = (es2 @ es1) @ events w" using e1 e2 by simp
      ultimately show ?thesis using e1 e2 by (metis Un_iff set_append)
    next
      case c2: True
      then have no2: "Ran Pkill True \<notin> set es2" "Ran Killall True \<notin> set es2" using e2 by auto
      have "w' = w2 \<or> w' = sleep 2000 w2"
        using k st True u nw c2 by (auto simp: kill_attempt_def split: if_splits)
      then have "events w' = (es2 @ es1) @ events w \<or> events w' = (Slept 2000 # es2 @ es1) @ events w"
        using e1 e2 by (auto simp: log_sleep)
      then show ?thesis using e1 no2 by auto
    qed
  qed
qed

lemma kill_loop_log:
  "\<not> windows e \<Longrightarrow> kill_loop e cfg timeout_ms start_time w = (s, w') \<Longrightarrow>
   \<exists>es. events w' = es @ events w \<and>
     (Ran Pkill True \<in> set es \<or> Ran Killall True \<in> set es \<longrightarrow> s = Raise AttributeError)"
proof (induction e cfg timeout_ms start_time w rule: kill_loop.induct)
  case (1 e cfg timeout_ms start_time w)
  show ?case
  proof (cases "clock w - start_time < timeout_ms")
    case False
    with "1.prems" have "w' = w" by (simp add: kill_loop.simps)
    then show ?thesis by simp
  next
    case True
    obtain s1 w1 where a: "kill_attempt e cfg timeout_ms start_time w = (s1, w1)"
      by (cases "kill_attempt e cfg timeout_ms start_time w")
    from kill_attempt_log[OF "1.prems"(1) a] obtain es1 where
      e1: "events w1 = es1 @ events w"
          "Ran Pkill True \<in> set es1 \<or> Ran Killall True \<in> set es1 \<longrightarrow> s1 = Raise AttributeError"
      by blast
    show ?thesis
    proof (cases "s1 = Continue")
      case c: True
      have "kill_loop e cfg timeout_ms start_time w1 = (s, w')"
        using "1.prems" True a c by (simp add: kill_loop.simps)
      from "1.IH"[OF True a[symmetric] c "1.prems"(1) this] obtain es2 where
        e2: "events w' = es2 @ events w1"
            "Ran Pkill True \<in> set es2 \<or> Ran Killall True \<in> set es2 \<longrightarrow> s = Raise AttributeError"
        by blast
      have "events w' = (es2 @ es1) @ events w" using e1 e2 by simp
      moreover have "Ran Pkill True \<notin> set es1" "Ran Killall True \<notin> set es1" using e1 c by auto
      ultimately show ?thesis using e2 by (metis Un_iff set_append)
    next
      case False
      then have "kill_loop e cfg timeout_ms start_time w = (s1, w1)"
        using True a by (cases s1) (simp_all add: kill_loop.simps)
      with "1.prems" have "s = s1" "w' = w1" by simp_all
      with e1 show ?thesis by blast
    qed
  qed
qed

lemma new_events_append: "events w' = es @ events w \<Longrightarrow> new_events w w' = es"
  by (simp add: new_events_def)

lemma quick_child_runs:
  "\<not> contains ''xcopy'' (lower (str_cmd c)) \<Longrightarrow>
   run_command c (Some quick_child) tmo = Finished True 110 []"
  by (simp add: run_command_def poll_loop.simps has_exited_def after_exit_def returncode_def
        quick_child_def)

lemma sample_argv_no_xcopy:
  "\<not> contains ''xcopy'' (lower (str_cmd (CmdList (argv windows_config KillCommand))))"
  "\<not> contains ''xcopy'' (lower (str_cmd (CmdList (argv linux_config KillCommand))))"
  "\<not> contains ''xcopy'' (lower (str_cmd (CmdList (argv linux_config Pkill))))"
  by (simp_all add: argv_def windows_config_def linux_config_def str_cmd_def repr_str_def
        repr_char_def lower_def lower_char_def Let_def)

lemma kill_when_process_gone:
  "kill_qt_creator env_process_gone windows_config 30000 \<lparr>clock = 0, events = []\<rparr> =
   (Return True, \<lparr>clock = 1160, events = [Liveness False, Slept 1000, Ran KillCommand True]\<rparr>)"
  by (simp add: kill_qt_creator_def kill_loop.simps kill_attempt_def kill_standard_def run_at_def
        quick_child_runs[OF sample_argv_no_xcopy(1)] env_process_gone_def reports_success_def
        str_bool_def sleep_def is_process_running_def Let_def)

lemma quit_when_process_gone:
  "quit_qt_creator_gracefully env_process_gone windows_config \<lparr>clock = 0, events = []\<rparr> =
   (True, \<lparr>clock = 90, events = [Liveness False, Exchanged ''quit'' ''{}'', Probed True]\<rparr>)"
  by (simp add: quit_qt_creator_gracefully_def probe_def exchange_def test_mcp_connection_def
        send_mcp_command_socket_def env_process_gone_def Let_def strip_def lstrip_def rstrip_def
        is_space_def is_process_running_def numeral_nat)

lemma kill_when_unix_listed:
  "kill_qt_creator env_unix_listed linux_config 30000 \<lparr>clock = 0, events = []\<rparr> =
   (Raise AttributeError,
    \<lparr>clock = 1270, events = [Ran Pkill True, Liveness True, Slept 1000, Ran KillCommand True]\<rparr>)"
  by (simp add: kill_qt_creator_def kill_loop.simps kill_attempt_def kill_standard_def run_at_def
        unix_methods_def quick_child_runs[OF sample_argv_no_xcopy(2)]
        quick_child_runs[OF sample_argv_no_xcopy(3)] env_unix_listed_def reports_success_def
        str_bool_def sleep_def is_process_running_def Let_def)

text \<open>
  C1. Whenever \<open>kill_qt_creator\<close> returns \<open>True\<close>, and whenever
  \<open>quit_qt_creator_gracefully\<close> returns \<open>True\<close>, the most recent interaction
  is a liveness check that reported the process as not running: the return follows that
  check directly, and no result of a termination command stands between them. The test
  \<open>result and "SUCCESS" in str(result)\<close> on the result of a termination command never
  holds, since \<open>result\<close> is a boolean.
\<close>

theorem stop_success_follows_liveness_check:
  "(kill_qt_creator e cfg timeout_ms w = (Return True, w') \<longrightarrow>
      (\<exists>rest. events w' = Liveness False # rest))
   \<and> (quit_qt_creator_gracefully e cfg w = (True, w'') \<longrightarrow>
      (\<exists>rest. events w'' = Liveness False # rest))
   \<and> \<not> reports_success result"
  using kill_loop_true[of e cfg timeout_ms "clock w" w w'] quit_true[of e cfg w w'']
    never_reports_success[of result]
  by (simp add: kill_qt_creator_def)

theorem stop_success_follows_liveness_check_witness:
  "kill_qt_creator env_process_gone windows_config 30000 \<lparr>clock = 0, events = []\<rparr> =
     (Return True, \<lparr>clock = 1160, events = [Liveness False, Slept 1000, Ran KillCommand True]\<rparr>)
   \<and> quit_qt_creator_gracefully env_process_gone windows_config \<lparr>clock = 0, events = []\<rparr> =
     (True, \<lparr>clock = 90, events = [Liveness False, Exchanged ''quit'' ''{}'', Probed True]\<rparr>)
   \<and> (\<exists>rest. events \<lparr>clock = 1160, events = [Liveness False, Slept 1000, Ran KillCommand True]\<rparr>
          = Liveness False # rest)
   \<and> (\<exists>rest. events \<lparr>clock = 90, events = [Liveness False, Exchanged ''quit'' ''{}'', Probed True]\<rparr>
          = Liveness False # rest)"
  using stop_success_follows_liveness_check[of env_process_gone windows_config 30000
      "\<lparr>clock = 0, events = []\<rparr>"
      "\<lparr>clock = 1160, events = [Liveness False, Slept 1000, Ran KillCommand True]\<rparr>"
      "\<lparr>clock = 90, events = [Liveness False, Exchanged ''quit'' ''{}'', Probed True]\<rparr>"]
    kill_when_process_gone quit_when_process_gone
  by simp

text \<open>
  C10. On a platform other than Windows, if a run of \<open>kill_qt_creator\<close> contains a
  \<open>pkill\<close> or \<open>killall\<close> call for which \<open>run_command\<close> returned \<open>True\<close>, the run ends
  by raising \<open>AttributeError\<close>; it returns no boolean.
\<close>

theorem kill_qt_creator_attribute_error:
  assumes "\<not> windows e"
    and "kill_qt_creator e cfg timeout_ms w = (s, w')"
    and "Ran Pkill True \<in> set (new_events w w') \<or> Ran Killall True \<in> set (new_events w w')"
  shows "s = Raise AttributeError"
proof -
  from kill_loop_log[OF assms(1) assms(2)[unfolded kill_qt_creator_def]] obtain es where
    es: "events w' = es @ events w"
        "Ran Pkill True \<in> set es \<or> Ran Killall True \<in> set es \<longrightarrow> s = Raise AttributeError"
    by blast
  with assms(3) show ?thesis by (simp add: new_events_append)
qed
theorem kill_qt_creator_attribute_error_witness:
  "\<not> windows env_unix_listed
   \<and> kill_qt_creator env_unix_listed linux_config 30000 \<lparr>clock = 0, events = []\<rparr> =
     (Raise AttributeError,
      \<lparr>clock = 1270, events = [Ran Pkill True, Liveness True, Slept 1000, Ran KillCommand True]\<rparr>)
   \<and> Ran Pkill True \<in> set (new_events \<lparr>clock = 0, events = []\<rparr>
      \<lparr>clock = 1270, events = [Ran Pkill True, Liveness True, Slept 1000, Ran KillCommand True]\<rparr>)"
proof -
  have nw: "\<not> windows env_unix_listed" by (simp add: env_unix_listed_def)
  have ev: "Ran Pkill True \<in> set (new_events \<lparr>clock = 0, events = []\<rparr>
      \<lparr>clock = 1270, events = [Ran Pkill True, Liveness True, Slept 1000, Ran KillCommand True]\<rparr>)"
    by (simp add: new_events_def)
  have "Raise AttributeError = Raise AttributeError"
    using kill_qt_creator_attribute_error[OF nw kill_when_unix_listed] ev by simp
  with nw ev kill_when_unix_listed show ?thesis by simp
qed

section \<open>Properties of the RPC client\<close>

lemma find_tool_entry:
  assumes "\<forall>tool \<in> set pre. \<exists>kvs'. tool = JObj kvs' \<and> map_of kvs' ''name'' \<noteq> Some (JStr fn)"
    and "map_of kvs ''name'' = Some (JStr fn)"
  shows "find_tool fn (pre @ JObj kvs # post) =
           Found (timeout_of (case map_of kvs ''timeout'' of
                                Some v \<Rightarrow> v | None \<Rightarrow> JStr ''default''))"
  using assms(1)
proof (induction pre)
  case Nil
  show ?case using assms(2) by simp
next
  case (Cons tool rest)
  then obtain kvs' where t: "tool = JObj kvs'" "map_of kvs' ''name'' \<noteq> Some (JStr fn)"
    by auto
  have "(case map_of kvs' ''name'' of None \<Rightarrow> JNull | Some v \<Rightarrow> v) \<noteq> JStr fn"
    using t(2) by (cases "map_of kvs' ''name''") auto
  then show ?case using Cons t by simp
qed

lemma find_tool_found:
  "find_tool fn ts = Found t \<Longrightarrow>
   \<exists>pre kvs post. ts = pre @ JObj kvs # post
     \<and> (\<forall>tool \<in> set pre. \<exists>kvs'. tool = JObj kvs' \<and> map_of kvs' ''name'' \<noteq> Some (JStr fn))
     \<and> map_of kvs ''name'' = Some (JStr fn)"
proof (induction ts)
  case Nil
  then show ?case by simp
next
  case (Cons tool rest)
  from Cons.prems obtain kvs0 where t: "tool = JObj kvs0"
    by (cases tool) simp_all
  show ?case
  proof (cases "map_of kvs0 ''name'' = Some (JStr fn)")
    case True
    have "tool # rest = [] @ JObj kvs0 # rest" using t by simp
    then show ?thesis using True by (metis empty_iff list.set(1))
  next
    case False
    then have ne: "(case map_of kvs0 ''name'' of None \<Rightarrow> JNull | Some v \<Rightarrow> v) \<noteq> JStr fn"
      by (cases "map_of kvs0 ''name''") auto
    then have "find_tool fn rest = Found t" using Cons.prems t by simp
    from Cons.IH[OF this] obtain pre kvs post where
      p: "rest = pre @ JObj kvs # post"
         "\<forall>tool \<in> set pre. \<exists>kvs'. tool = JObj kvs' \<and> map_of kvs' ''name'' \<noteq> Some (JStr fn)"
         "map_of kvs ''name'' = Some (JStr fn)"
      by blast
    have "tool # rest = (tool # pre) @ JObj kvs # post" using p(1) by simp
    moreover have "\<forall>x \<in> set (tool # pre). \<exists>kvs'. x = JObj kvs'
                     \<and> map_of kvs' ''name'' \<noteq> Some (JStr fn)"
      using p(2) t False by auto
    ultimately show ?thesis using p(3) by blast
  qed
qed

lemma find_tool_needs_object: "find_tool fn ts = Found t \<Longrightarrow> \<exists>kvs. JObj kvs \<in> set ts"
  using find_tool_found[of fn ts t] by auto

lemma schema_lookup_found:
  assumes "schema_lookup f fn = Found t"
  shows "\<exists>doc m pre kvs post. f = Loaded (JObj doc) \<and> map_of doc ''mcp'' = Some (JObj m)
     \<and> map_of m ''tools'' = Some (JArr (pre @ JObj kvs # post))
     \<and> (\<forall>tool \<in> set pre. \<exists>kvs'. tool = JObj kvs' \<and> map_of kvs' ''name'' \<noteq> Some (JStr fn))
     \<and> map_of kvs ''name'' = Some (JStr fn)"
proof -
  from assms obtain mcp_data where f: "f = Loaded mcp_data"
    by (cases f) (simp_all add: schema_lookup_def)
  from assms f obtain doc where d: "mcp_data = JObj doc"
    by (cases mcp_data) (simp_all add: schema_lookup_def)
  let ?mcp = "case map_of doc ''mcp'' of Some v \<Rightarrow> v | None \<Rightarrow> JObj []"
  from assms f d obtain m where m: "?mcp = JObj m"
    by (cases ?mcp) (simp_all add: schema_lookup_def)
  let ?tools = "case map_of m ''tools'' of Some v \<Rightarrow> v | None \<Rightarrow> JArr []"
  from assms f d m obtain ts where
    ts: "py_iter ?tools = Some ts" "find_tool fn ts = Found t"
    by (cases "py_iter ?tools") (simp_all add: schema_lookup_def)
  from find_tool_needs_object[OF ts(2)] obtain kvs0 where o: "JObj kvs0 \<in> set ts" by blast
  have a: "?tools = JArr ts"
    using ts(1) o by (cases ?tools) auto
  have tl: "map_of m ''tools'' = Some (JArr ts)"
    using a o by (cases "map_of m ''tools''") auto
  then have "m \<noteq> []" by auto
  then have ml: "map_of doc ''mcp'' = Some (JObj m)"
    using m by (cases "map_of doc ''mcp''") auto
  from find_tool_found[OF ts(2)] obtain pre kvs post where
    "ts = pre @ JObj kvs # post"
    "\<forall>tool \<in> set pre. \<exists>kvs'. tool = JObj kvs' \<and> map_of kvs' ''name'' \<noteq> Some (JStr fn)"
    "map_of kvs ''name'' = Some (JStr fn)"
    by blast
  with f d ml tl show ?thesis by blast
qed

lemma schema_lookup_entry:
  assumes "f = Loaded (JObj doc)" and "map_of doc ''mcp'' = Some (JObj m)"
    and "map_of m ''tools'' = Some (JArr (pre @ JObj kvs # post))"
    and "\<forall>tool \<in> set pre. \<exists>kvs'. tool = JObj kvs' \<and> map_of kvs' ''name'' \<noteq> Some (JStr fn)"
    and "map_of kvs ''name'' = Some (JStr fn)"
  shows "schema_lookup f fn =
           Found (timeout_of (case map_of kvs ''timeout'' of
                                Some v \<Rightarrow> v | None \<Rightarrow> JStr ''default''))"
  using find_tool_entry[OF assms(4,5), of post] assms(1-3) by (simp add: schema_lookup_def)

lemma fallback_table:
  "(case map_of timeout_map fn of Some t \<Rightarrow> t | None \<Rightarrow> 5) =
     (if fn = ''build'' then 1200 else if fn = ''debug'' then 60
      else if fn = ''loadSession'' then 120
      else if fn = ''get_plugin_version'' \<or> fn = ''initialize'' \<or> fn = ''quit'' then 1
      else 5)"
  by (simp add: timeout_map_def)

text \<open>
  C9 (as amended). The schema is asked first, and the lookup walks the tool list in
  order. When \<open>mcp.json\<close> loads to \<open>{"mcp": {"tools": [...]}}\<close> and the list holds an
  object named like the method, with only objects of other names before it, the result
  is read from that object: 5 without a \<open>timeout\<close> entry or with \<open>default\<close>, 60 for
  \<open>1 minute\<close>, 120 for \<open>2 minutes\<close>, 1200 for \<open>20 minutes\<close>, 5 for anything else. In
  every other case (the file cannot be read or parsed, it has another shape, an element
  that is not an object is met first, or no tool has the name) the hardcoded map decides:
  1200 for \<open>build\<close>, 60 for \<open>debug\<close>, 120 for \<open>loadSession\<close>, 1 for
  \<open>get_plugin_version\<close>, \<open>initialize\<close> and \<open>quit\<close>, and 5 for a method it does not list.
\<close>

theorem get_mcp_timeout_schema_first:
  "(f = Loaded (JObj doc) \<longrightarrow> map_of doc ''mcp'' = Some (JObj m) \<longrightarrow>
      map_of m ''tools'' = Some (JArr (pre @ JObj kvs # post)) \<longrightarrow>
      (\<forall>tool \<in> set pre. \<exists>kvs'. tool = JObj kvs' \<and> map_of kvs' ''name'' \<noteq> Some (JStr fn)) \<longrightarrow>
      map_of kvs ''name'' = Some (JStr fn) \<longrightarrow>
      get_mcp_timeout_for_function f fn =
        (case map_of kvs ''timeout'' of
           None \<Rightarrow> 5
         | Some v \<Rightarrow>
             if v = JStr ''default'' then 5
             else if v = JStr ''1 minute'' then 60
             else if v = JStr ''2 minutes'' then 120
             else if v = JStr ''20 minutes'' then 1200
             else 5))
   \<and> (\<not> (\<exists>doc' m' pre' kvs' post'.
            f = Loaded (JObj doc') \<and> map_of doc' ''mcp'' = Some (JObj m')
            \<and> map_of m' ''tools'' = Some (JArr (pre' @ JObj kvs' # post'))
            \<and> (\<forall>tool \<in> set pre'. \<exists>kvs''. tool = JObj kvs''
                   \<and> map_of kvs'' ''name'' \<noteq> Some (JStr fn))
            \<and> map_of kvs' ''name'' = Some (JStr fn)) \<longrightarrow>
      get_mcp_timeout_for_function f fn =
        (if fn = ''build'' then 1200 else if fn = ''debug'' then 60
         else if fn = ''loadSession'' then 120
         else if fn = ''get_plugin_version'' \<or> fn = ''initialize'' \<or> fn = ''quit'' then 1
         else 5))"
proof (intro conjI impI)
  assume a: "f = Loaded (JObj doc)" "map_of doc ''mcp'' = Some (JObj m)"
    "map_of m ''tools'' = Some (JArr (pre @ JObj kvs # post))"
    "\<forall>tool \<in> set pre. \<exists>kvs'. tool = JObj kvs' \<and> map_of kvs' ''name'' \<noteq> Some (JStr fn)"
    "map_of kvs ''name'' = Some (JStr fn)"
  show "get_mcp_timeout_for_function f fn =
        (case map_of kvs ''timeout'' of
           None \<Rightarrow> 5
         | Some v \<Rightarrow>
             if v = JStr ''default'' then 5
             else if v = JStr ''1 minute'' then 60
             else if v = JStr ''2 minutes'' then 120
             else if v = JStr ''20 minutes'' then 1200
             else 5)"
    using schema_lookup_entry[OF a]
    by (simp add: get_mcp_timeout_for_function_def timeout_of_def split: option.splits)
next
  assume n: "\<not> (\<exists>doc' m' pre' kvs' post'.
            f = Loaded (JObj doc') \<and> map_of doc' ''mcp'' = Some (JObj m')
            \<and> map_of m' ''tools'' = Some (JArr (pre' @ JObj kvs' # post'))
            \<and> (\<forall>tool \<in> set pre'. \<exists>kvs''. tool = JObj kvs''
                   \<and> map_of kvs'' ''name'' \<noteq> Some (JStr fn))
            \<and> map_of kvs' ''name'' = Some (JStr fn))"
  have "\<forall>t. schema_lookup f fn \<noteq> Found t"
    using n schema_lookup_found[of f fn] by blast
  then have "get_mcp_timeout_for_function f fn =
      (case map_of timeout_map fn of Some t \<Rightarrow> t | None \<Rightarrow> 5)"
    by (cases "schema_lookup f fn") (auto simp add: get_mcp_timeout_for_function_def)
  then show "get_mcp_timeout_for_function f fn =
        (if fn = ''build'' then 1200 else if fn = ''debug'' then 60
         else if fn = ''loadSession'' then 120
         else if fn = ''get_plugin_version'' \<or> fn = ''initialize'' \<or> fn = ''quit'' then 1
         else 5)"
    by (simp only: fallback_table)
qed

lemma sample_schema_timeouts:
  "get_mcp_timeout_for_function sample_schema ''debug'' = 5"
  "get_mcp_timeout_for_function sample_schema ''loadSession'' = 1200"
  "get_mcp_timeout_for_function sample_schema ''quit'' = 120"
  "get_mcp_timeout_for_function sample_schema ''initialize'' = 5"
  "get_mcp_timeout_for_function sample_schema ''getBuildStatus'' = 5"
  "get_mcp_timeout_for_function sample_schema ''loadProject'' = 5"
  by (simp_all add: get_mcp_timeout_for_function_def sample_schema_def schema_lookup_def
        timeout_of_def timeout_map_def)

theorem get_mcp_timeout_schema_first_witness:
  "get_mcp_timeout_for_function sample_schema ''build'' = 60
   \<and> get_mcp_timeout_for_function sample_schema ''debug'' = 5
   \<and> get_mcp_timeout_for_function sample_schema ''loadSession'' = 1200
   \<and> get_mcp_timeout_for_function sample_schema ''quit'' = 120
   \<and> get_mcp_timeout_for_function sample_schema ''initialize'' = 5
   \<and> get_mcp_timeout_for_function sample_schema ''getBuildStatus'' = 5
   \<and> get_mcp_timeout_for_function Unreadable ''build'' = 1200
   \<and> get_mcp_timeout_for_function Unreadable ''debug'' = 60
   \<and> get_mcp_timeout_for_function Unreadable ''loadSession'' = 120
   \<and> get_mcp_timeout_for_function Unreadable ''quit'' = 1
   \<and> get_mcp_timeout_for_function NotJson ''getBuildStatus'' = 5"
proof -
  let ?build = "[(''name'', JStr ''build''), (''timeout'', JStr ''1 minute'')]"
  let ?pre = "[JObj [(''name'', JStr ''debug'')]]"
  let ?post = "[JObj [(''name'', JStr ''loadSession''), (''timeout'', JStr ''20 minutes'')],
                JObj [(''name'', JStr ''quit''), (''timeout'', JStr ''2 minutes'')],
                JObj [(''name'', JStr ''initialize''), (''timeout'', JStr ''default'')],
                JObj [(''name'', JStr ''getBuildStatus''), (''timeout'', JStr ''soon'')]]"
  let ?m = "[(''tools'', JArr (?pre @ JObj ?build # ?post))]"
  let ?doc = "[(''mcp'', JObj ?m)]"
  have s: "sample_schema = Loaded (JObj ?doc)" by (simp add: sample_schema_def)
  have p: "\<forall>tool \<in> set ?pre. \<exists>kvs'. tool = JObj kvs'
             \<and> map_of kvs' ''name'' \<noteq> Some (JStr ''build'')"
    by simp
  have b: "get_mcp_timeout_for_function sample_schema ''build'' = 60"
    using get_mcp_timeout_schema_first[where f = sample_schema and doc = ?doc and m = ?m
        and pre = ?pre and kvs = ?build and post = ?post and fn = "''build''"] s p
    by simp
  have u: "\<And>f fn. f = Unreadable \<or> f = NotJson \<Longrightarrow>
      \<not> (\<exists>doc' m' pre' kvs' post'.
            f = Loaded (JObj doc') \<and> map_of doc' ''mcp'' = Some (JObj m')
            \<and> map_of m' ''tools'' = Some (JArr (pre' @ JObj kvs' # post'))
            \<and> (\<forall>tool \<in> set pre'. \<exists>kvs''. tool = JObj kvs''
                   \<and> map_of kvs'' ''name'' \<noteq> Some (JStr fn))
            \<and> map_of kvs' ''name'' = Some (JStr fn))"
    by auto
  have f1: "get_mcp_timeout_for_function Unreadable ''build'' = 1200"
    using get_mcp_timeout_schema_first[where f = Unreadable and fn = "''build''"]
      u[of Unreadable "''build''"] by simp
  have f2: "get_mcp_timeout_for_function Unreadable ''debug'' = 60"
    using get_mcp_timeout_schema_first[where f = Unreadable and fn = "''debug''"]
      u[of Unreadable "''debug''"] by simp
  have f3: "get_mcp_timeout_for_function Unreadable ''loadSession'' = 120"
    using get_mcp_timeout_schema_first[where f = Unreadable and fn = "''loadSession''"]
      u[of Unreadable "''loadSession''"] by simp
  have f4: "get_mcp_timeout_for_function Unreadable ''quit'' = 1"
    using get_mcp_timeout_schema_first[where f = Unreadable and fn = "''quit''"]
      u[of Unreadable "''quit''"] by simp
  have f5: "get_mcp_timeout_for_function NotJson ''getBuildStatus'' = 5"
    using get_mcp_timeout_schema_first[where f = NotJson and fn = "''getBuildStatus''"]
      u[of NotJson "''getBuildStatus''"] by simp
  show ?thesis using b f1 f2 f3 f4 f5 sample_schema_timeouts by simp
qed

text \<open>
  C9 as stated fails: the file is readable and its tool list contains \<open>build\<close> with a
  timeout of one minute, but a string stands before that entry. \<open>"oops".get\<close> raises, the
  bare \<open>except\<close> swallows it, and the hardcoded 1200 is returned instead of the schema's 60.
\<close>

theorem malformed_schema_uses_hardcoded_map:
  "get_mcp_timeout_for_function
     (Loaded (JObj [(''mcp'', JObj [(''tools'',
        JArr [JStr ''oops'',
              JObj [(''name'', JStr ''build''), (''timeout'', JStr ''1 minute'')]])])]))
     ''build'' = 1200
   \<and> get_mcp_timeout_for_function
     (Loaded (JObj [(''mcp'', JObj [(''tools'',
        JArr [JObj [(''name'', JStr ''build''), (''timeout'', JStr ''1 minute'')]])])]))
     ''build'' = 60"
  by (simp add: get_mcp_timeout_for_function_def schema_lookup_def timeout_of_def timeout_map_def)

lemma socket_closed_iff:
  "Call_close \<in> set (snd (send_mcp_command_socket f p command fn)) \<longleftrightarrow>
     socket_ok p \<and> connect_result p = Ok \<and> send_result p = Ok
     \<and> (\<exists>d. recv_result p = Data d)"
  by (auto simp: send_mcp_command_socket_def Let_def split: received.splits)

text \<open>
  C8 at a failing input. The endpoint accepts the connection and the command and then
  stays silent, so \<open>recv\<close> raises \<open>socket.timeout\<close>: the function returns the empty string
  from the \<open>except\<close> clause, and \<open>close\<close> is not among the calls made on the socket.
\<close>

theorem send_mcp_command_socket_timeout_leaves_socket_open:
  "send_mcp_command_socket Unreadable
     \<lparr>socket_ok = True, connect_result = Ok, send_result = Ok, recv_result = RecvTimesOut,
      exchange_ms = 5000\<rparr> ''status'' ''getBuildStatus''
   = ([], [Call_socket, Call_settimeout 5, Call_connect, Call_send ''status'', Call_recv])
   \<and> Call_close \<notin> set (snd (send_mcp_command_socket Unreadable
     \<lparr>socket_ok = True, connect_result = Ok, send_result = Ok, recv_result = RecvTimesOut,
      exchange_ms = 5000\<rparr> ''status'' ''getBuildStatus''))"
  by (simp add: send_mcp_command_socket_def get_mcp_timeout_for_function_def schema_lookup_def
        timeout_map_def Let_def)

section \<open>Properties of \<open>verify_plugin_installation\<close>\<close>

lemma verify_plugin_installation_windows:
  "verify_plugin_installation True built_plugin installed_plugin \<longleftrightarrow>
     (\<exists>built installed. built_plugin = Some built \<and> installed_plugin = Some installed
        \<and> byte_size built = byte_size installed \<and> mtime built - 5 \<le> mtime installed)"
  by (auto simp: verify_plugin_installation_def split: option.splits)

text \<open>
  C3 at a failing input. On a platform other than Windows the function returns \<open>True\<close>
  without looking at either file: a built plugin of 10485760 bytes and an installed file
  of 0 bytes, two seconds apart, are accepted. The same pair is rejected on Windows.
\<close>

theorem verify_plugin_installation_skipped_off_windows:
  "verify_plugin_installation False
     (Some \<lparr>mtime = 1000, byte_size = 10485760\<rparr>) (Some \<lparr>mtime = 1002, byte_size = 0\<rparr>) = True
   \<and> verify_plugin_installation True
     (Some \<lparr>mtime = 1000, byte_size = 10485760\<rparr>) (Some \<lparr>mtime = 1002, byte_size = 0\<rparr>) = False"
  by (simp add: verify_plugin_installation_def)

section \<open>Properties of \<open>poll_build_status\<close>\<close>

lemma read_status_text:
  assumes "response \<noteq> []" and "loads e response = Some (JObj kvs)"
    and "map_of kvs ''result'' = Some (JStr txt)" and "txt \<noteq> []"
  shows "read_status e response = Complete \<longleftrightarrow>
           (if contains ''Building:'' txt \<and> contains ''%'' txt
            then search_building txt = Some 100
            else contains ''Status: Not building'' txt)"
proof -
  have k: "''result'' \<in> fst ` set kvs" using assms(3) by (metis map_of_eq_None_iff option.distinct(1))
  show ?thesis
    using assms k by (auto simp: read_status_def split: option.splits)
qed

lemma takeWhile_digits: "\<forall>c \<in> set ds. is_digit c \<Longrightarrow> takeWhile is_digit (ds @ ''%'' @ rest) = ds"
  by (induction ds) (auto simp: is_digit_def)

lemma dropWhile_digits: "\<forall>c \<in> set ds. is_digit c \<Longrightarrow> dropWhile is_digit (ds @ ''%'' @ rest) = ''%'' @ rest"
  by (induction ds) (auto simp: is_digit_def)

lemma match_building_percent:
  assumes "ds \<noteq> []" and "\<forall>c \<in> set ds. is_digit c"
  shows "match_building (''Building: '' @ ds @ ''%'' @ rest) = Some (digits_val ds)"
  using assms takeWhile_digits[OF assms(2), of rest] dropWhile_digits[OF assms(2), of rest]
  by (simp add: match_building_def Let_def)

lemma search_building_percent:
  assumes "ds \<noteq> []" and "\<forall>c \<in> set ds. is_digit c"
  shows "search_building (''Building: '' @ ds @ ''%'' @ rest) = Some (digits_val ds)"
proof -
  have "search_building (CHR ''B'' # ''uilding: '' @ ds @ ''%'' @ rest) = Some (digits_val ds)"
    using match_building_percent[OF assms, of rest] by (simp del: match_building_def)
  then show ?thesis by simp
qed

lemma contains_prefix: "contains m (m @ rest)"
  by (simp add: contains_iff) (metis append_Nil)


lemma exchange_status:
  "exchange e status_command ''getBuildStatus'' w =
     (status_reply e (length (events w)),
      w\<lparr>clock := clock w + exchange_ms (endpoint e (length (events w))),
        events := Exchanged ''getBuildStatus'' (status_reply e (length (events w))) # events w\<rparr>)"
  by (simp add: exchange_def status_reply_def Let_def)

lemma poll_complete:
  assumes "clock w - start < max_ms"
    and "read_status e (status_reply e (length (events w))) = Complete"
  shows "poll_loop_status e max_ms start w =
           (True, snd (exchange e status_command ''getBuildStatus'' w))"
  using assms by (subst poll_loop_status.simps) (simp add: exchange_status)

lemma poll_in_progress:
  assumes "clock w - start < max_ms"
    and "read_status e (status_reply e (length (events w))) = InProgress"
  shows "poll_loop_status e max_ms start w =
           poll_loop_status e max_ms start
             (sleep 2000 (snd (exchange e status_command ''getBuildStatus'' w)))"
  using assms by (subst poll_loop_status.simps) (simp add: exchange_status)

lemma poll_gives_up:
  "\<forall>k. read_status e (status_reply e k) = InProgress \<Longrightarrow>
   \<exists>w'. poll_loop_status e max_ms start w = (False, w') \<and> max_ms \<le> clock w' - start"
proof (induction e max_ms start w rule: poll_loop_status.induct)
  case (1 e max_poll_ms start_time w)
  show ?case
  proof (cases "clock w - start_time < max_poll_ms")
    case False
    then show ?thesis by (subst poll_loop_status.simps) simp
  next
    case True
    have ip: "read_status e (status_reply e (length (events w))) = InProgress"
      using "1.prems" by simp
    obtain r w1 where x: "exchange e status_command ''getBuildStatus'' w = (r, w1)"
      by (cases "exchange e status_command ''getBuildStatus'' w")
    then have r: "r = status_reply e (length (events w))" by (simp add: exchange_status)
    have "\<exists>w'. poll_loop_status e max_poll_ms start_time (sleep 2000 w1) = (False, w')
            \<and> max_poll_ms \<le> clock w' - start_time"
      using "1.IH"[OF True x[symmetric] _ "1.prems"] ip r by simp
    then show ?thesis
      using poll_in_progress[OF True ip] x by simp
  qed
qed

lemma poll_true_after_complete:
  "poll_loop_status e max_ms start w = (True, w') \<Longrightarrow>
   \<exists>r rest. events w' = Exchanged ''getBuildStatus'' r # rest \<and> read_status e r = Complete"
proof (induction e max_ms start w rule: poll_loop_status.induct)
  case (1 e max_poll_ms start_time w)
  show ?case
  proof (cases "clock w - start_time < max_poll_ms")
    case False
    with "1.prems" show ?thesis by (subst (asm) poll_loop_status.simps) simp
  next
    case True
    obtain r w1 where x: "exchange e status_command ''getBuildStatus'' w = (r, w1)"
      by (cases "exchange e status_command ''getBuildStatus'' w")
    show ?thesis
    proof (cases "read_status e r")
      case Complete
      then have "poll_loop_status e max_poll_ms start_time w = (True, w1)"
        using True x by (subst poll_loop_status.simps) simp
      with "1.prems" have "w' = w1" by simp
      moreover have "events w1 = Exchanged ''getBuildStatus'' r # events w"
        using x by (auto simp: exchange_def Let_def)
      ultimately show ?thesis using Complete by blast
    next
      case InProgress
      then have "poll_loop_status e max_poll_ms start_time w
                  = poll_loop_status e max_poll_ms start_time (sleep 2000 w1)"
        using True x by (subst poll_loop_status.simps) simp
      with "1.prems" have "poll_loop_status e max_poll_ms start_time (sleep 2000 w1) = (True, w')"
        by simp
      from "1.IH"[OF True x[symmetric] InProgress this] show ?thesis .
    qed
  qed
qed


lemma result_body_nonempty: "result_body txt \<noteq> []"
  by (simp add: result_body_def)

lemma strip_result_body: "strip (result_body txt) = result_body txt"
  by (simp add: result_body_def dq_def strip_def lstrip_def rstrip_def is_space_def)

lemma idle_reads_in_progress: "read_status env_idle (result_body idle_text) = InProgress"
  by (simp add: read_status_def env_idle_def result_body_nonempty idle_text_def match_building_def is_digit_def digits_val_def digit_val_def Let_def)

lemma idle_reply: "status_reply env_idle k = result_body idle_text"
  by (simp add: status_reply_def env_idle_def answering_def send_mcp_command_socket_def Let_def strip_result_body)

lemma idle_contains: "contains ''Status: Not building'' (result_body idle_text)"
  by (simp add: result_body_def idle_text_def dq_def)

lemma idle_exchange:
  "exchange env_idle status_command ''getBuildStatus'' w =
     (result_body idle_text,
      w\<lparr>clock := clock w + 20, events := Exchanged ''getBuildStatus'' (result_body idle_text) # events w\<rparr>)"
  by (simp add: exchange_status idle_reply) (simp add: env_idle_def answering_def)

lemma idle_poll:
  "poll_build_status env_idle 5000 \<lparr>clock = 0, events = []\<rparr> =
     (False, \<lparr>clock = 6060,
              events = [Slept 2000, Exchanged ''getBuildStatus'' (result_body idle_text),
                        Slept 2000, Exchanged ''getBuildStatus'' (result_body idle_text),
                        Slept 2000, Exchanged ''getBuildStatus'' (result_body idle_text)]\<rparr>)"
  by (simp add: poll_build_status_def poll_loop_status.simps idle_exchange idle_reads_in_progress sleep_def)

lemma building_reads:
  "read_status env_building (result_body ''Building: 57%'') = InProgress"
  "read_status env_building (result_body ''Building: 100%'') = Complete"
  by (simp_all add: read_status_def env_building_def result_body_nonempty match_building_def
        is_digit_def digits_val_def digit_val_def Let_def result_body_def dq_def)

lemma building_reply:
  "status_reply env_building k = (if k = 0 then result_body ''Building: 57%'' else result_body ''Building: 100%'')"
  by (simp add: status_reply_def env_building_def answering_def send_mcp_command_socket_def Let_def strip_result_body)

lemma building_exchange:
  "exchange env_building status_command ''getBuildStatus'' w =
     (status_reply env_building (length (events w)),
      w\<lparr>clock := clock w + 20,
        events := Exchanged ''getBuildStatus'' (status_reply env_building (length (events w))) # events w\<rparr>)"
  by (simp add: exchange_status) (simp add: env_building_def answering_def)

lemma building_poll:
  "poll_build_status env_building 1200000 \<lparr>clock = 0, events = []\<rparr> =
     (True, \<lparr>clock = 2040,
             events = [Exchanged ''getBuildStatus'' (result_body ''Building: 100%''),
                       Slept 2000, Exchanged ''getBuildStatus'' (result_body ''Building: 57%'')]\<rparr>)"
  by (simp add: poll_build_status_def poll_loop_status.simps building_exchange building_reply building_reads sleep_def)

text \<open>
  C7 (as amended). For a response \<open>{"result": txt}\<close> with a non-empty string \<open>txt\<close>, the
  poll reads it as complete exactly when \<open>txt\<close> contains \<open>Building:\<close> and \<open>%\<close> and its
  leftmost \<open>Building: <digits>%\<close> has the value 100, or \<open>txt\<close> lacks one of \<open>Building:\<close>
  and \<open>%\<close> and contains \<open>Status: Not building\<close>; a text that begins with
  \<open>Building: N%\<close> is read with progress \<open>N\<close>. Within the budget, a complete response
  makes the loop return \<open>True\<close> at once, and any other response makes it sleep two seconds
  and poll again. \<open>poll_build_status\<close> returns \<open>True\<close> only directly after a response it
  read as complete, and when no response is complete it returns \<open>False\<close>, with the budget
  used up.
\<close>

theorem poll_build_status_verdicts:
  "(response \<noteq> [] \<longrightarrow> loads e response = Some (JObj kvs) \<longrightarrow>
      map_of kvs ''result'' = Some (JStr txt) \<longrightarrow> txt \<noteq> [] \<longrightarrow>
      (read_status e response = Complete \<longleftrightarrow>
         (if contains ''Building:'' txt \<and> contains ''%'' txt
          then search_building txt = Some 100
          else contains ''Status: Not building'' txt)))
   \<and> (ds \<noteq> [] \<longrightarrow> (\<forall>c \<in> set ds. is_digit c) \<longrightarrow>
        search_building (''Building: '' @ ds @ ''%'' @ rest) = Some (digits_val ds))
   \<and> (clock w - start < max_ms \<longrightarrow>
        read_status e (status_reply e (length (events w))) = Complete \<longrightarrow>
        poll_loop_status e max_ms start w
          = (True, snd (exchange e status_command ''getBuildStatus'' w)))
   \<and> (clock w - start < max_ms \<longrightarrow>
        read_status e (status_reply e (length (events w))) = InProgress \<longrightarrow>
        poll_loop_status e max_ms start w
          = poll_loop_status e max_ms start
              (sleep 2000 (snd (exchange e status_command ''getBuildStatus'' w))))
   \<and> (poll_build_status e max_ms w0 = (True, w1) \<longrightarrow>
        (\<exists>r es. events w1 = Exchanged ''getBuildStatus'' r # es \<and> read_status e r = Complete))
   \<and> ((\<forall>k. read_status e (status_reply e k) = InProgress) \<longrightarrow>
        (\<exists>w'. poll_build_status e max_ms w0 = (False, w') \<and> max_ms \<le> clock w' - clock w0))"
  using read_status_text[of response e kvs "txt"] search_building_percent[of ds rest]
    poll_complete[of w start max_ms e] poll_in_progress[of w start max_ms e]
    poll_true_after_complete[of e max_ms "clock w0" w0 w1]
    poll_gives_up[of e max_ms "clock w0" w0]
  unfolding poll_build_status_def by blast

theorem poll_build_status_verdicts_witness:
  "read_status env_building (result_body ''Building: 100%'') = Complete
   \<and> search_building (''Building: '' @ ''57'' @ ''%'' @ []) = Some 57
   \<and> read_status env_building (status_reply env_building 0) = InProgress
   \<and> poll_loop_status env_building 1200000 0 \<lparr>clock = 0, events = []\<rparr>
        = poll_loop_status env_building 1200000 0
            (sleep 2000 (snd (exchange env_building status_command ''getBuildStatus''
               \<lparr>clock = 0, events = []\<rparr>)))
   \<and> poll_build_status env_building 1200000 \<lparr>clock = 0, events = []\<rparr> =
        (True, \<lparr>clock = 2040,
                events = [Exchanged ''getBuildStatus'' (result_body ''Building: 100%''),
                          Slept 2000,
                          Exchanged ''getBuildStatus'' (result_body ''Building: 57%'')]\<rparr>)
   \<and> (\<forall>k. read_status env_idle (status_reply env_idle k) = InProgress)
   \<and> (\<exists>w'. poll_build_status env_idle 5000 \<lparr>clock = 0, events = []\<rparr> = (False, w')
          \<and> 5000 \<le> clock w' - clock \<lparr>clock = 0, events = []\<rparr>)"
proof -
  let ?w0 = "\<lparr>clock = 0, events = []\<rparr>"
  have d: "''57'' \<noteq> []" "\<forall>c \<in> set ''57''. is_digit c" by (simp_all add: is_digit_def)
  have v: "digits_val ''57'' = 57" by (simp add: digits_val_def digit_val_def)
  have l: "loads env_building (result_body ''Building: 100%'')
             = Some (JObj [(''result'', JStr ''Building: 100%'')])"
    by (simp add: env_building_def result_body_def dq_def)
  have c: "contains ''Building:'' ''Building: 100%''" "contains ''%'' ''Building: 100%''"
    "search_building ''Building: 100%'' = Some 100"
    by (simp_all add: match_building_def is_digit_def digits_val_def digit_val_def Let_def)
  have ip: "read_status env_building (status_reply env_building (length (events ?w0))) = InProgress"
    by (simp add: building_reply building_reads)
  have idle: "\<forall>k. read_status env_idle (status_reply env_idle k) = InProgress"
    by (simp add: idle_reply idle_reads_in_progress)
  note t = poll_build_status_verdicts[of "result_body ''Building: 100%''" env_building
      "[(''result'', JStr ''Building: 100%'')]" "''Building: 100%''" "''57''" "[]"
      ?w0 0 1200000]
  note t2 = poll_build_status_verdicts[of _ env_idle _ _ _ _ _ _ 5000 ?w0]
  show ?thesis
    using t t2 d v l c ip idle building_poll result_body_nonempty[of "''Building: 100%''"]
    by (simp add: building_reply)
qed

text \<open>
  C7 as stated fails: every response contains \<open>Status: Not building\<close>, but also the
  progress of the last run, \<open>Building: 57%\<close>; the poll reads it as a build in progress and
  gives up when the budget of five seconds is used up.
\<close>

theorem poll_build_status_idle_text_with_progress:
  "contains ''Status: Not building'' (status_reply env_idle 0)
   \<and> contains ''Status: Not building'' (status_reply env_idle 2)
   \<and> contains ''Status: Not building'' (status_reply env_idle 4)
   \<and> poll_build_status env_idle 5000 \<lparr>clock = 0, events = []\<rparr> =
     (False, \<lparr>clock = 6060,
              events = [Slept 2000, Exchanged ''getBuildStatus'' (status_reply env_idle 4),
                        Slept 2000, Exchanged ''getBuildStatus'' (status_reply env_idle 2),
                        Slept 2000, Exchanged ''getBuildStatus'' (status_reply env_idle 0)]\<rparr>)"
  using idle_contains idle_poll by (simp add: idle_reply)

section \<open>Properties of the version step and of \<open>main\<close>\<close>

lemma split_three: "(3 \<le> length xs) = (\<exists>a b c rest. xs = a # b # c # rest)"
proof (cases xs)
  case Nil
  then show ?thesis by simp
next
  case (Cons a ys)
  show ?thesis
  proof (cases ys)
    case Nil
    with Cons show ?thesis by simp
  next
    case c2: (Cons b zs)
    show ?thesis using Cons c2 by (cases zs) simp_all
  qed
qed

lemma check_version_patch:
  assumes "response_data \<noteq> []" and "loads e response_data = Some (JObj kvs)"
    and "map_of kvs ''result'' = Some (JObj res)" and "res \<noteq> []"
    and "map_of res ''serverInfo'' = Some (JObj info)"
    and "map_of info ''version'' = Some (JStr version)"
  shows "check_version e response_data \<longleftrightarrow>
           (\<exists>a b c rest n. split_on CHR ''.'' version = a # b # c # rest
              \<and> py_int c = Some n \<and> 1 \<le> n)"
proof -
  have k: "''result'' \<in> fst ` set kvs"
    using assms(3) by (metis map_of_eq_None_iff option.distinct(1))
  have "check_version e response_data \<longleftrightarrow>
          (3 \<le> length (split_on CHR ''.'' version)
           \<and> (\<exists>n. py_int (split_on CHR ''.'' version ! 2) = Some n \<and> 1 \<le> n))"
    using assms k by (auto simp: check_version_def Let_def split: option.splits)
  also have "\<dots> \<longleftrightarrow> (\<exists>a b c rest n. split_on CHR ''.'' version = a # b # c # rest
              \<and> py_int c = Some n \<and> 1 \<le> n)"
    by (auto simp: split_three)
  finally show ?thesis .
qed

lemma str_nat_digits: "str_nat 4 = ''4''" "str_nat 5 = ''5''"
  by (simp_all add: str_nat.simps)

lemma bump_writable: "bump_version (sample_files 4 Written) = sample_files 5 Written"
  by (simp add: bump_version_def write_file_def sample_files_def sample_version_cmake_def
        str_nat_digits match_digits_def is_digit_def digits_val_def digit_val_def dq_def Let_def)



lemma init_body_nonempty: "init_body v \<noteq> []"
  by (simp add: init_body_def)

lemma strip_init_body: "strip (init_body v) = init_body v"
  by (simp add: init_body_def dq_def strip_def lstrip_def rstrip_def is_space_def)

lemma stale_passes: "check_version (env_reporting ''1.31.3'') (init_body ''1.31.3'')"
  by (simp add: check_version_def env_reporting_def init_body_nonempty init_json_def py_int_def
        strip_def lstrip_def rstrip_def is_space_def is_digit_def digits_val_def digit_val_def Let_def)

lemma zero_fails: "\<not> check_version (env_reporting ''1.31.0'') (init_body ''1.31.0'')"
  by (simp add: check_version_def env_reporting_def init_body_nonempty init_json_def py_int_def
        strip_def lstrip_def rstrip_def is_space_def is_digit_def digits_val_def digit_val_def Let_def)
















lemma exchange_sample:
  "exchange (env_reporting v) command fn w
     = (init_body v, w\<lparr>clock := clock w + 20, events := Exchanged fn (init_body v) # events w\<rparr>)"
  by (simp add: exchange_def env_reporting_def answering_def send_mcp_command_socket_def Let_def
        strip_init_body)





lemma regenerate_sample_bumped:
  "regenerate_version_files (sample_files 5 Written) =
     (True, (sample_files 5 Written)\<lparr>version_h :=
        Some (version_h_content ''1'' ''31'' ''5'' ''Qt_MCP_Plugin'' ''Qt_MCP_Plugin.json'')\<rparr>)"
  by (simp add: regenerate_version_files_def write_file_def sample_files_def
        sample_version_cmake_def str_nat_digits match_digits_def match_quoted_def is_digit_def
        dq_def Let_def)

lemma loads_reporting: "loads (env_reporting v) (init_body v) = Some (init_json v)"
  by (simp add: env_reporting_def)

text \<open>
  C4 (as amended). \<open>test_mcp_version\<close> sends \<open>initialize\<close> and judges the reply alone. For
  a reply with \<open>result.serverInfo.version\<close> a string, the test passes exactly when the
  string has at least three components between dots and the third is accepted by \<open>int\<close>
  with a value of at least 1. The threshold is the constant 1; the version the pipeline
  has just bumped is not an input of the test.
\<close>

theorem test_mcp_version_fixed_threshold:
  "(response_data \<noteq> [] \<longrightarrow> loads e response_data = Some (JObj kvs) \<longrightarrow>
      map_of kvs ''result'' = Some (JObj res) \<longrightarrow> res \<noteq> [] \<longrightarrow>
      map_of res ''serverInfo'' = Some (JObj info) \<longrightarrow>
      map_of info ''version'' = Some (JStr version) \<longrightarrow>
      (check_version e response_data \<longleftrightarrow>
         (\<exists>a b c rest n. split_on CHR ''.'' version = a # b # c # rest
            \<and> py_int c = Some n \<and> 1 \<le> n)))
   \<and> test_mcp_version e w =
        (check_version e (fst (exchange e init_query ''initialize'' w)),
         snd (exchange e init_query ''initialize'' w))"
  using check_version_patch[of response_data e kvs res info version]
  by (simp add: test_mcp_version_def split: prod.splits)

theorem test_mcp_version_fixed_threshold_witness:
  "init_body ''1.31.3'' \<noteq> []
   \<and> loads (env_reporting ''1.31.3'') (init_body ''1.31.3'') = Some (init_json ''1.31.3'')
   \<and> check_version (env_reporting ''1.31.3'') (init_body ''1.31.3'')
   \<and> (\<exists>a b c rest n. split_on CHR ''.'' ''1.31.3'' = a # b # c # rest
          \<and> py_int c = Some n \<and> 1 \<le> n)
   \<and> \<not> check_version (env_reporting ''1.31.0'') (init_body ''1.31.0'')
   \<and> \<not> (\<exists>a b c rest n. split_on CHR ''.'' ''1.31.0'' = a # b # c # rest
          \<and> py_int c = Some n \<and> 1 \<le> n)"
proof -
  note t3 = test_mcp_version_fixed_threshold[of "init_body ''1.31.3''" "env_reporting ''1.31.3''"
      "[(''result'', JObj [(''serverInfo'',
          JObj [(''name'', JStr ''Qt MCP Plugin''), (''version'', JStr ''1.31.3'')])])]"
      "[(''serverInfo'', JObj [(''name'', JStr ''Qt MCP Plugin''), (''version'', JStr ''1.31.3'')])]"
      "[(''name'', JStr ''Qt MCP Plugin''), (''version'', JStr ''1.31.3'')]" "''1.31.3''"]
  note t0 = test_mcp_version_fixed_threshold[of "init_body ''1.31.0''" "env_reporting ''1.31.0''"
      "[(''result'', JObj [(''serverInfo'',
          JObj [(''name'', JStr ''Qt MCP Plugin''), (''version'', JStr ''1.31.0'')])])]"
      "[(''serverInfo'', JObj [(''name'', JStr ''Qt MCP Plugin''), (''version'', JStr ''1.31.0'')])]"
      "[(''name'', JStr ''Qt MCP Plugin''), (''version'', JStr ''1.31.0'')]" "''1.31.0''"]
  have a: "(\<exists>a b c rest n. split_on CHR ''.'' ''1.31.3'' = a # b # c # rest
          \<and> py_int c = Some n \<and> 1 \<le> n)"
    using t3 stale_passes init_body_nonempty[of "''1.31.3''"] loads_reporting[of "''1.31.3''"]
    by (simp add: init_json_def)
  have b: "\<not> (\<exists>a b c rest n. split_on CHR ''.'' ''1.31.0'' = a # b # c # rest
          \<and> py_int c = Some n \<and> 1 \<le> n)"
    using t0 zero_fails init_body_nonempty[of "''1.31.0''"] loads_reporting[of "''1.31.0''"]
    by (simp add: init_json_def)
  show ?thesis
    using a b stale_passes zero_fails init_body_nonempty loads_reporting by simp
qed

text \<open>
  C4 as stated fails: the pipeline bumps patch 4 to patch 5 and regenerates the header for
  version 1.31.5; an instance of the plugin that still reports 1.31.3, a strictly lower
  version, passes the test.
\<close>

theorem stale_version_passes_after_bump:
  "bump_version (sample_files 4 Written) = sample_files 5 Written
   \<and> regenerate_version_files (sample_files 5 Written) =
       (True, (sample_files 5 Written)\<lparr>version_h :=
          Some (version_h_content ''1'' ''31'' ''5'' ''Qt_MCP_Plugin'' ''Qt_MCP_Plugin.json'')\<rparr>)
   \<and> test_mcp_version (env_reporting ''1.31.3'') \<lparr>clock = 0, events = []\<rparr> =
       (True, \<lparr>clock = 20, events = [Exchanged ''initialize'' (init_body ''1.31.3'')]\<rparr>)"
  using bump_writable regenerate_sample_bumped stale_passes
  by (simp add: test_mcp_version_def exchange_sample)




end
